theory Spec2Isabelle
  imports Main "HOL-Library.Sublist"
begin

section \<open>Crypto Service\<close>

text \<open>
  The crypto service hashes with SHA-256 (\<open>createHash('sha256')...digest('hex')\<close>) and
  signs either through the native addon \<open>@devshare/native\<close> or through a JavaScript
  fallback. The hash function is Node's; it is a parameter \<open>sha256\<close> of every
  definition that hashes. The native addon is not part of the TypeScript sources: it is a
  parameter of type \<open>native_addon option\<close>, where \<open>None\<close> is a \<open>require\<close> that
  throws (addon not installed), and each of its functions returns \<open>None\<close> when the
  call throws.
\<close>

record KeyPair =
  kp_publicKey :: string
  kp_privateKey :: string

record BundleSignature =
  bundleHash :: string
  signature :: string
  publicKey :: string
  timestamp :: int
  version :: string

record native_addon =
  native_signData :: "string \<Rightarrow> string \<Rightarrow> string option"
  native_verifySignature :: "string \<Rightarrow> string \<Rightarrow> string \<Rightarrow> bool option"

datatype crypto_error = NotInitialized | CryptoFailure

definition generateKeyPairFallback :: "(string \<Rightarrow> string) \<Rightarrow> string \<Rightarrow> KeyPair" where
  \<comment> \<open>\<open>rnd\<close> is the hex rendering of \<open>randomBytes(32)\<close>.\<close>
  "generateKeyPairFallback sha256 rnd = \<lparr>kp_publicKey = sha256 rnd, kp_privateKey = rnd\<rparr>"

definition signDataFallback :: "(string \<Rightarrow> string) \<Rightarrow> string \<Rightarrow> string \<Rightarrow> string" where
  "signDataFallback sha256 data privateKey = sha256 (data @ privateKey)"

definition verifySignatureFallback ::
  "(string \<Rightarrow> string) \<Rightarrow> string \<Rightarrow> string \<Rightarrow> string \<Rightarrow> bool" where
  "verifySignatureFallback sha256 data sig pubKey =
     (let expectedSignature = sha256 (data @ pubKey) in sig = expectedSignature)"

text \<open>
  \<open>try { native.signData(...) } catch { signDataFallback(...) }\<close>: the fallback runs when
  the addon is missing and also when its call throws.
\<close>

definition sign_with ::
  "native_addon option \<Rightarrow> (string \<Rightarrow> string) \<Rightarrow> string \<Rightarrow> string \<Rightarrow> string" where
  "sign_with native sha256 data privateKey =
     (case native of
        None \<Rightarrow> signDataFallback sha256 data privateKey
      | Some n \<Rightarrow>
          (case native_signData n data privateKey of
             None \<Rightarrow> signDataFallback sha256 data privateKey
           | Some s \<Rightarrow> s))"

definition verify_with ::
  "native_addon option \<Rightarrow> (string \<Rightarrow> string) \<Rightarrow> string \<Rightarrow> string \<Rightarrow> string \<Rightarrow> bool" where
  "verify_with native sha256 data sig pubKey =
     (case native of
        None \<Rightarrow> verifySignatureFallback sha256 data sig pubKey
      | Some n \<Rightarrow>
          (case native_verifySignature n data sig pubKey of
             None \<Rightarrow> verifySignatureFallback sha256 data sig pubKey
           | Some b \<Rightarrow> b))"

definition signBundle ::
  "native_addon option \<Rightarrow> (string \<Rightarrow> string) \<Rightarrow> KeyPair option \<Rightarrow> int \<Rightarrow> string
    \<Rightarrow> crypto_error + BundleSignature" where
  \<comment> \<open>\<open>now\<close> is \<open>Date.now()\<close>; the unused \<open>bundlePath\<close> argument is left out.\<close>
  "signBundle native sha256 keyPair now bHash =
     (case keyPair of
        None \<Rightarrow> Inl NotInitialized
      | Some kp \<Rightarrow>
          Inr \<lparr>bundleHash = bHash,
               signature = sign_with native sha256 bHash (kp_privateKey kp),
               publicKey = kp_publicKey kp,
               timestamp = now,
               version = ''1.0.0''\<rparr>)"

definition maxAge :: int where
  "maxAge = 24 * 60 * 60 * 1000"

text \<open>
  The body of \<open>verifyBundleSignature\<close> inside its \<open>try\<close>. None of its statements can
  throw on a well-typed envelope (a throwing native call is caught by the inner
  \<open>try\<close>), so the body always yields \<open>Inr\<close>; the outer \<open>catch\<close> turns any \<open>Inl\<close>
  into \<open>false\<close>.
\<close>

definition verifyBundleSignature_try ::
  "native_addon option \<Rightarrow> (string \<Rightarrow> string) \<Rightarrow> int \<Rightarrow> string \<Rightarrow> BundleSignature
    \<Rightarrow> crypto_error + bool" where
  "verifyBundleSignature_try native sha256 now bHash sg =
     (if now - timestamp sg > maxAge then Inr False
      else if bHash \<noteq> bundleHash sg then Inr False
      else Inr (verify_with native sha256 (bundleHash sg) (signature sg) (publicKey sg)))"

definition verifyBundleSignature ::
  "native_addon option \<Rightarrow> (string \<Rightarrow> string) \<Rightarrow> int \<Rightarrow> string \<Rightarrow> BundleSignature
    \<Rightarrow> crypto_error + bool" where
  "verifyBundleSignature native sha256 now bHash sg =
     (case verifyBundleSignature_try native sha256 now bHash sg of
        Inl e \<Rightarrow> Inr False
      | Inr b \<Rightarrow> Inr b)"

definition signMessage ::
  "native_addon option \<Rightarrow> (string \<Rightarrow> string) \<Rightarrow> KeyPair option \<Rightarrow> string
    \<Rightarrow> crypto_error + (string \<times> string)" where
  \<comment> \<open>The result pairs the signature with the signer's public key.\<close>
  "signMessage native sha256 keyPair message =
     (case keyPair of
        None \<Rightarrow> Inl NotInitialized
      | Some kp \<Rightarrow> Inr (sign_with native sha256 message (kp_privateKey kp), kp_publicKey kp))"

definition verifySignature ::
  "native_addon option \<Rightarrow> (string \<Rightarrow> string) \<Rightarrow> string \<Rightarrow> string \<Rightarrow> string \<Rightarrow> bool" where
  "verifySignature native sha256 message sig pubKey = verify_with native sha256 message sig pubKey"

section \<open>Bundle Codec: exclusion rules\<close>

text \<open>
  \<open>shouldExclude\<close> turns a pattern that contains \<open>*\<close> into a regular expression by
  replacing every \<open>*\<close> with \<open>.*\<close> and nothing else, then calls \<open>RegExp.test\<close>, which
  searches for a match anywhere in the path. The fragment of JavaScript regular
  expressions modelled here is the one such patterns produce: literal characters, the
  dot (any character but a line terminator) and the star of one of these. A source with
  any other metacharacter is outside the fragment and \<open>RegExp\<close> answers \<open>None\<close>.
  Paths are strings of 8-bit characters, one per code unit, which is exact for ASCII names.
\<close>

datatype atom = Chr char | Dot

datatype item = One atom | Star atom

definition replace_star :: "string \<Rightarrow> string" where
  \<comment> \<open>\<open>pattern.replace(/\*/g, '.*')\<close>\<close>
  "replace_star p = concat (map (\<lambda>c. if c = CHR ''*'' then ''.*'' else [c]) p)"

definition metachars :: "char list" where
  "metachars = CHR 0x5C # ''^$+?()[]{}|*''"

definition atom_of :: "char \<Rightarrow> atom" where
  "atom_of c = (if c = CHR ''.'' then Dot else Chr c)"

fun RegExp :: "string \<Rightarrow> item list option" where
  "RegExp [] = Some []"
| "RegExp (c # cs) =
     (if c \<in> set metachars then None
      else (case cs of
              [] \<Rightarrow> Some [One (atom_of c)]
            | d # rest \<Rightarrow>
                if d = CHR ''*'' then map_option (Cons (Star (atom_of c))) (RegExp rest)
                else map_option (Cons (One (atom_of c))) (RegExp cs)))"

fun atom_matches :: "atom \<Rightarrow> char \<Rightarrow> bool" where
  "atom_matches (Chr c) d = (c = d)"
| "atom_matches Dot d = (d \<noteq> CHR 0x0A \<and> d \<noteq> CHR 0x0D)"

fun match_here :: "item list \<Rightarrow> string \<Rightarrow> bool" where
  "match_here [] s = True"
| "match_here (One a # r) [] = False"
| "match_here (One a # r) (c # s) = (atom_matches a c \<and> match_here r s)"
| "match_here (Star a # r) [] = match_here r []"
| "match_here (Star a # r) (c # s) =
     (match_here r (c # s) \<or> (atom_matches a c \<and> match_here (Star a # r) s))"

fun regex_test :: "item list \<Rightarrow> string \<Rightarrow> bool" where
  "regex_test r [] = match_here r []"
| "regex_test r (c # s) = (match_here r (c # s) \<or> regex_test r s)"

fun shouldExclude :: "string \<Rightarrow> string list \<Rightarrow> bool option" where
  "shouldExclude filePath [] = Some False"
| "shouldExclude filePath (pattern # excludePatterns) =
     (if CHR ''*'' \<in> set pattern then
        (case RegExp (replace_star pattern) of
           None \<Rightarrow> None
         | Some regex \<Rightarrow>
             if regex_test regex filePath then Some True
             else shouldExclude filePath excludePatterns)
      else if filePath = pattern \<or> prefix (pattern @ ''/'') filePath then Some True
      else shouldExclude filePath excludePatterns)"

definition DEFAULT_EXCLUDES :: "string list" where
  "DEFAULT_EXCLUDES =
     [''node_modules'', ''.git'', ''.DS_Store'', ''dist'', ''build'', ''target'', ''*.log'',
      ''.env'', ''.env.local'', ''coverage'', ''.nyc_output'', ''.cache'', ''tmp'', ''temp'']"


section \<open>Shared data model\<close>

datatype language = node | python | docker

record engines =
  engine_node :: "string option"
  engine_python :: "string option"

record ProjectManifest =
  m_name :: string
  m_version :: string
  m_language :: language
  m_run :: string
  m_engines :: "engines option"
  m_ports :: "nat list option"
  m_env :: "string list option"
  m_secrets :: "string list option"
  m_dependencies :: "(string \<times> string) list option"

section \<open>Bundle Codec: encoding\<close>

text \<open>
  A \<open>Buffer\<close> is a list of bytes, written as a \<open>string\<close> (an 8-bit \<open>char\<close> per
  byte); a path is the list of its UTF-8 bytes. The functions of the platform are
  parameters, gathered in one record: \<open>zlib\<close>'s compressor, \<open>JSON.stringify\<close> on
  manifests, and the two faces of the \<open>Hash\<close> object that \<open>createHash('sha256')\<close>
  returns: \<open>p_digest\<close> is the chunk it pushes as a stream once its input has ended
  (the raw digest of everything written to it), \<open>p_digest_hex\<close> is what
  \<open>hash.digest('hex')\<close> returns for the same input. \<open>p_stalls written\<close> tells
  whether, in a run that has handed \<open>written\<close> to the compressor while nothing reads
  the compressor's output, a write is left without its acknowledgement (the output
  buffer is full).
\<close>

record platform =
  p_gzip :: "string \<Rightarrow> string"
  p_stringify :: "ProjectManifest \<Rightarrow> string"
  p_digest :: "string \<Rightarrow> string"
  p_digest_hex :: "string \<Rightarrow> string"
  p_stalls :: "string \<Rightarrow> bool"

datatype codec_error = RangeError | NoSuchFile

text \<open>
  The outcome of an asynchronous step: \<open>None\<close> when its promise never settles,
  \<open>Some (Inl e)\<close> when it rejects with \<open>e\<close>, \<open>Some (Inr x)\<close> when it resolves to \<open>x\<close>.
\<close>

type_synonym 'a settled = "(codec_error + 'a) option"

definition then_r :: "'a settled \<Rightarrow> ('a \<Rightarrow> 'b settled) \<Rightarrow> 'b settled" where
  \<comment> \<open>one awaited step after another\<close>
  "then_r m f = (case m of None \<Rightarrow> None | Some (Inl e) \<Rightarrow> Some (Inl e) | Some (Inr x) \<Rightarrow> f x)"

fun be_bytes :: "nat \<Rightarrow> nat \<Rightarrow> string" where
  "be_bytes 0 n = []"
| "be_bytes (Suc k) n = be_bytes k (n div 256) @ [char_of (n mod 256)]"

definition writeUInt32BE :: "nat \<Rightarrow> string settled" where
  "writeUInt32BE n = (if n < 2 ^ 32 then Some (Inr (be_bytes 4 n)) else Some (Inl RangeError))"

definition writeBigUInt64BE :: "nat \<Rightarrow> string settled" where
  "writeBigUInt64BE n = (if n < 2 ^ 64 then Some (Inr (be_bytes 8 n)) else Some (Inl RangeError))"

text \<open>
  \<open>writeToStream\<close> resolves when the stream acknowledges the write. The first
  argument is what the compressor has been handed before; the result is what it has
  been handed after.
\<close>

definition writeToStream :: "platform \<Rightarrow> string \<Rightarrow> string \<Rightarrow> string settled" where
  "writeToStream env written data =
     (if p_stalls env (written @ data) then None else Some (Inr (written @ data)))"

text \<open>
  \<open>createArchive\<close> writes the layout to the compressor: manifest length and JSON, file
  count, then for each file the path length, the path, the size \<open>stat\<close> reports and the
  content read (the same bytes: the project does not change while it is bundled; the
  chunks of the content count as one write). \<open>rd\<close> reads a file of the project by its
  relative path, \<open>None\<close> when \<open>stat\<close> throws.
\<close>

fun write_files ::
  "platform \<Rightarrow> (string \<rightharpoonup> string) \<Rightarrow> string list \<Rightarrow> string \<Rightarrow> string settled" where
  "write_files env rd [] written = Some (Inr written)"
| "write_files env rd (filePath # files) written =
     (case rd filePath of
        None \<Rightarrow> Some (Inl NoSuchFile)
      | Some content \<Rightarrow>
          then_r (writeUInt32BE (length filePath)) (\<lambda>pathLengthBuffer.
          then_r (writeToStream env written pathLengthBuffer) (\<lambda>w1.
          then_r (writeToStream env w1 filePath) (\<lambda>w2.
          then_r (writeBigUInt64BE (length content)) (\<lambda>fileSizeBuffer.
          then_r (writeToStream env w2 fileSizeBuffer) (\<lambda>w3.
          then_r (writeToStream env w3 content) (\<lambda>w4.
            write_files env rd files w4)))))))"

record BundleResult =
  br_size :: nat
  br_checksum :: string
  br_fileCount :: nat

text \<open>
  The last step is \<open>pipeline(gzipStream, hash, writeStream)\<close>, attached after the
  last write: the \<open>Hash\<close> object stands between the compressor and the file. It
  consumes the compressed bytes and passes none of them on; when they end it pushes
  its digest, and that chunk is what the file receives. \<open>stat\<close> of the file and
  \<open>hash.digest('hex')\<close> follow. The result pairs the bytes of the bundle file with the
  \<open>BundleResult\<close>.
\<close>

definition createArchive ::
  "platform \<Rightarrow> (string \<rightharpoonup> string) \<Rightarrow> string list \<Rightarrow> ProjectManifest
    \<Rightarrow> (string \<times> BundleResult) settled" where
  "createArchive env rd files manifest =
     (let manifestBuffer = p_stringify env manifest
      in then_r (writeUInt32BE (length manifestBuffer)) (\<lambda>manifestLengthBuffer.
         then_r (writeToStream env [] manifestLengthBuffer) (\<lambda>w1.
         then_r (writeToStream env w1 manifestBuffer) (\<lambda>w2.
         then_r (writeUInt32BE (length files)) (\<lambda>fileCountBuffer.
         then_r (writeToStream env w2 fileCountBuffer) (\<lambda>w3.
         then_r (write_files env rd files w3) (\<lambda>w4.
           let compressed = p_gzip env w4;
               bundleFile = p_digest env compressed
           in Some (Inr (bundleFile,
                   \<lparr>br_size = length bundleFile,
                    br_checksum = p_digest_hex env compressed,
                    br_fileCount = length files\<rparr>)))))))))"

section \<open>Peer Discovery\<close>

text \<open>
  The service keeps a registry \<open>discoveredPeers\<close> and three single-slot callbacks. A
  callback slot is modelled by a flag (is a callback registered) and every call of a
  registered callback is appended to \<open>notified\<close>. \<open>JSON.stringify\<close> is a parameter: it
  receives the fields in the order the source lists them.
\<close>

datatype json = JStr string | JNum int

record DiscoveredPeer =
  dp_id :: string
  dp_name :: string
  dp_address :: string
  dp_port :: int
  dp_publicKey :: string
  dp_lastSeen :: int

record PeerAnnouncement =
  pa_id :: string
  pa_name :: string
  pa_port :: int
  pa_publicKey :: string
  pa_timestamp :: int
  pa_signature :: string

record BundleAnnouncement =
  ba_peerId :: string
  ba_bundleId :: string
  ba_bundleName :: string
  ba_bundleSize :: int
  ba_timestamp :: int
  ba_signature :: string

datatype DiscoveryMessage =
  peer_announcement PeerAnnouncement
| bundle_announcement BundleAnnouncement

datatype discovery_event =
  PeerDiscovered DiscoveredPeer
| PeerLost string
| BundleAnnounced BundleAnnouncement

record discovery =
  discoveredPeers :: "string \<rightharpoonup> DiscoveredPeer"
  onPeerDiscovered :: bool
  onPeerLost :: bool
  onBundleAnnounced :: bool
  notified :: "discovery_event list"

record crypto_env =
  c_native :: "native_addon option"
  c_sha256 :: "string \<Rightarrow> string"
  c_keyPair :: "KeyPair option"
  c_JSON_stringify :: "(string \<times> json) list \<Rightarrow> string"

definition handlePeerAnnouncement ::
  "crypto_env \<Rightarrow> int \<Rightarrow> PeerAnnouncement \<Rightarrow> string \<Rightarrow> discovery \<Rightarrow> discovery" where
  \<comment> \<open>\<open>now\<close> is the clock at both \<open>Date.now()\<close> and \<open>new Date()\<close>.\<close>
  "handlePeerAnnouncement c now announcement sourceAddress st =
     (let messageToVerify = c_JSON_stringify c
            [(''type'', JStr ''peer_announcement''),
             (''id'', JStr (pa_id announcement)),
             (''name'', JStr (pa_name announcement)),
             (''port'', JNum (pa_port announcement)),
             (''publicKey'', JStr (pa_publicKey announcement)),
             (''timestamp'', JNum (pa_timestamp announcement))];
          isValid = verifySignature (c_native c) (c_sha256 c) messageToVerify
                      (pa_signature announcement) (pa_publicKey announcement)
      in if \<not> isValid then st
         else let messageAge = now - pa_timestamp announcement
              in if messageAge > 5 * 60 * 1000 then st
                 else let existingPeer = discoveredPeers st (pa_id announcement);
                          peer = \<lparr>dp_id = pa_id announcement,
                                  dp_name = pa_name announcement,
                                  dp_address = sourceAddress,
                                  dp_port = pa_port announcement,
                                  dp_publicKey = pa_publicKey announcement,
                                  dp_lastSeen = now\<rparr>;
                          st1 = st\<lparr>discoveredPeers :=
                                  (discoveredPeers st)(pa_id announcement \<mapsto> peer)\<rparr>
                      in if existingPeer = None \<and> onPeerDiscovered st
                         then st1\<lparr>notified := notified st @ [PeerDiscovered peer]\<rparr>
                         else st1)"

definition handleBundleAnnouncement ::
  "crypto_env \<Rightarrow> int \<Rightarrow> BundleAnnouncement \<Rightarrow> discovery \<Rightarrow> discovery" where
  "handleBundleAnnouncement c now announcement st =
     (case discoveredPeers st (ba_peerId announcement) of
        None \<Rightarrow> st
      | Some peer \<Rightarrow>
          let messageToVerify = c_JSON_stringify c
                [(''type'', JStr ''bundle_announcement''),
                 (''peerId'', JStr (ba_peerId announcement)),
                 (''bundleId'', JStr (ba_bundleId announcement)),
                 (''bundleName'', JStr (ba_bundleName announcement)),
                 (''bundleSize'', JNum (ba_bundleSize announcement)),
                 (''timestamp'', JNum (ba_timestamp announcement))];
              isValid = verifySignature (c_native c) (c_sha256 c) messageToVerify
                          (ba_signature announcement) (dp_publicKey peer)
          in if \<not> isValid then st
             else let messageAge = now - ba_timestamp announcement
                  in if messageAge > 5 * 60 * 1000 then st
                     else if onBundleAnnounced st
                          then st\<lparr>notified := notified st @ [BundleAnnounced announcement]\<rparr>
                          else st)"

text \<open>
  \<open>handleMessage\<close> receives the datagram after \<open>JSON.parse\<close>: \<open>None\<close> is a datagram
  that does not parse or whose \<open>type\<close> is neither of the two kinds. A parse error, and
  \<open>getPublicKey\<close> throwing because no key pair exists yet, are caught and logged.
\<close>

definition handleMessage ::
  "crypto_env \<Rightarrow> int \<Rightarrow> DiscoveryMessage option \<Rightarrow> string \<Rightarrow> discovery \<Rightarrow> discovery" where
  "handleMessage c now parsed rinfo_address st =
     (case parsed of
        None \<Rightarrow> st
      | Some data \<Rightarrow>
          (case c_keyPair c of
             None \<Rightarrow> st
           | Some kp \<Rightarrow>
               let ourPublicKey = kp_publicKey kp;
                   ourPeerId = take 16 ourPublicKey
               in (case data of
                     peer_announcement a \<Rightarrow>
                       if pa_id a = ourPeerId then st
                       else handlePeerAnnouncement c now a rinfo_address st
                   | bundle_announcement b \<Rightarrow>
                       if ba_peerId b = ourPeerId then st
                       else handleBundleAnnouncement c now b st)))"

section \<open>Transfer Service\<close>

datatype status = pending | transferring | completed | failed | cancelled

datatype direction = upload | download

record BundleInfo =
  bi_bundleId :: string
  bi_manifest :: ProjectManifest
  bi_bundlePath :: string
  bi_size :: int
  bi_chunks :: int
  bi_checksum :: string
  bi_signature :: string
  bi_createdAt :: int
  bi_expiresAt :: int

record TransferState =
  transferId :: string
  ts_bundleId :: string
  ts_peerId :: string
  direction :: direction
  status :: status
  totalChunks :: int
  completedChunks :: "nat set"
  totalBytes :: int
  transferredBytes :: int
  startTime :: int
  tempPath :: "string option"
  ts_error :: "string option"

record PeerInfo =
  pi_id :: string
  pi_name :: string
  pi_address :: string
  pi_port :: int
  pi_publicKey :: string
  pi_lastSeen :: int
  online :: bool

record token_info =
  tk_bundleId :: string
  tk_peerId :: string
  tk_expiresAt :: int

text \<open>
  What \<open>notifyTransferProgress\<close> hands to the callback, without \<open>speed\<close> and \<open>eta\<close>
  (floating-point values computed from the clock).
\<close>

record TransferProgress =
  tp_transferId :: string
  tp_bundleId :: string
  tp_totalChunks :: int
  tp_completedChunks :: nat
  tp_totalBytes :: int
  tp_transferredBytes :: int
  tp_status :: status
  tp_error :: "string option"

text \<open>
  The progress callback is code of the caller: it may return or throw. A callback is a
  function from the calls made so far and the progress handed over to the message of
  the error it throws, \<open>None\<close> when it returns. What it throws is taken to be an
  \<open>Error\<close>, identified with its message. It is handed a fresh progress object, not
  the transfer; a callback that calls operations of the service from inside is a run
  interleaved with those operations, which the runs below do not cover.
\<close>

type_synonym callback = "TransferProgress list \<Rightarrow> TransferProgress \<Rightarrow> string option"

text \<open>
  The service state. \<open>activeTransfers\<close> maps a transfer id to a reference; the
  \<open>TransferState\<close> objects live in \<open>heap\<close>, since \<open>cancelTransfer\<close> mutates an object
  and then removes it from the table while other holders of the reference still see it.
  \<open>onTransferProgress\<close> is the callback slot, \<open>progress_log\<close> lists the calls made to
  the callback. The temporary bundle file on disk is left out of the state.
\<close>

record TransferService =
  transferTimeout :: int
  chunkSize :: int
  availableBundles :: "string \<rightharpoonup> BundleInfo"
  activeTransfers :: "string \<rightharpoonup> nat"
  heap :: "nat \<rightharpoonup> TransferState"
  nextRef :: nat
  peers :: "string \<rightharpoonup> PeerInfo"
  transferTokens :: "string \<rightharpoonup> token_info"
  onTransferProgress :: "callback option"
  progress_log :: "TransferProgress list"

definition progress_of :: "TransferState \<Rightarrow> TransferProgress" where
  "progress_of t =
     \<lparr>tp_transferId = transferId t, tp_bundleId = ts_bundleId t,
      tp_totalChunks = totalChunks t, tp_completedChunks = card (completedChunks t),
      tp_totalBytes = totalBytes t, tp_transferredBytes = transferredBytes t,
      tp_status = status t, tp_error = ts_error t\<rparr>"

text \<open>
  \<open>notifyTransferProgress\<close> calls the callback when one is registered, with no guard
  around the call: the result is the list of calls made and the error thrown, if any.
\<close>

definition notifyTransferProgress ::
  "callback option \<Rightarrow> TransferProgress list \<Rightarrow> TransferState
    \<Rightarrow> TransferProgress list \<times> string option" where
  "notifyTransferProgress cb calls t =
     (case cb of
        None \<Rightarrow> (calls, None)
      | Some f \<Rightarrow> (calls @ [progress_of t], f calls (progress_of t)))"

subsection \<open>Hosting side: tokens and downloads\<close>

datatype http_body =
  ErrorBody string
| TokenGranted string int int int
| EntireBundle BundleInfo
| BundleChunk BundleInfo int int int
| HeadersOnly

record http_response =
  code :: nat
  resp_body :: http_body

text \<open>
  \<open>handleTransferTokenRequest\<close>: \<open>req\<close> is the parsed request body, \<open>None\<close> when
  \<open>JSON.parse\<close> throws (the dispatcher then answers 500); \<open>stamp\<close> is the text of
  \<open>Date.now()\<close> and \<open>Math.random()\<close> that the token hashes.
\<close>

definition handleTransferTokenRequest ::
  "(string \<Rightarrow> string) \<Rightarrow> int \<Rightarrow> string \<Rightarrow> (string \<times> string) option \<Rightarrow> TransferService
    \<Rightarrow> http_response \<times> TransferService" where
  "handleTransferTokenRequest hash now stamp req st =
     (case req of
        None \<Rightarrow> (\<lparr>code = 500, resp_body = ErrorBody ''Internal server error''\<rparr>, st)
      | Some (bundleId, peerId) \<Rightarrow>
          (case availableBundles st bundleId of
             None \<Rightarrow> (\<lparr>code = 404, resp_body = ErrorBody ''Bundle not found''\<rparr>, st)
           | Some bundle \<Rightarrow>
               let token = hash (bundleId @ '':'' @ peerId @ '':'' @ stamp);
                   expiresAt = now + transferTimeout st * 1000
               in (\<lparr>code = 200,
                    resp_body = TokenGranted token (bi_size bundle) (bi_chunks bundle) expiresAt\<rparr>,
                   st\<lparr>transferTokens := (transferTokens st)
                        (token \<mapsto> \<lparr>tk_bundleId = bundleId, tk_peerId = peerId,
                                     tk_expiresAt = expiresAt\<rparr>)\<rparr>)))"

text \<open>
  \<open>sendBundleChunk\<close> writes the status line and headers of a 200 first and opens the
  byte range next. For a range that is not inside the file \<open>createReadStream\<close> throws;
  the headers are sent already and no body follows.
\<close>

definition sendBundleChunk :: "TransferService \<Rightarrow> BundleInfo \<Rightarrow> int \<Rightarrow> http_response" where
  "sendBundleChunk st bundle chunkIndex =
     (let chunkStart = chunkIndex * chunkSize st;
          chunkEnd = min (chunkStart + chunkSize st - 1) (bi_size bundle - 1)
      in if 0 \<le> chunkStart \<and> chunkStart \<le> chunkEnd
         then \<lparr>code = 200, resp_body = BundleChunk bundle chunkIndex chunkStart chunkEnd\<rparr>
         else \<lparr>code = 200, resp_body = HeadersOnly\<rparr>)"

definition sendEntireBundle :: "BundleInfo \<Rightarrow> http_response" where
  "sendEntireBundle bundle = \<lparr>code = 200, resp_body = EntireBundle bundle\<rparr>"

text \<open>
  \<open>handleBundleDownloadRequest\<close>: \<open>token\<close> is the fourth segment of the URL path,
  \<open>chunkIndex\<close> the parsed fifth one when present. The handler assigns to no field of
  the service; the state is returned to make that visible.
\<close>

definition handleBundleDownloadRequest ::
  "int \<Rightarrow> string \<Rightarrow> int option \<Rightarrow> TransferService \<Rightarrow> http_response \<times> TransferService" where
  "handleBundleDownloadRequest now token chunkIndex st =
     (case transferTokens st token of
        None \<Rightarrow> (\<lparr>code = 401, resp_body = ErrorBody ''Invalid or expired token''\<rparr>, st)
      | Some tokenInfo \<Rightarrow>
          if tk_expiresAt tokenInfo < now
          then (\<lparr>code = 401, resp_body = ErrorBody ''Invalid or expired token''\<rparr>, st)
          else (case availableBundles st (tk_bundleId tokenInfo) of
                  None \<Rightarrow> (\<lparr>code = 404, resp_body = ErrorBody ''Bundle not found''\<rparr>, st)
                | Some bundle \<Rightarrow>
                    (case chunkIndex of
                       Some i \<Rightarrow> (sendBundleChunk st bundle i, st)
                     | None \<Rightarrow> (sendEntireBundle bundle, st))))"

definition cleanupExpired :: "int \<Rightarrow> TransferService \<Rightarrow> TransferService" where
  "cleanupExpired now st =
     st\<lparr>availableBundles :=
          (\<lambda>k. case availableBundles st k of
                 None \<Rightarrow> None
               | Some b \<Rightarrow> if bi_expiresAt b < now then None else Some b),
        transferTokens :=
          (\<lambda>k. case transferTokens st k of
                 None \<Rightarrow> None
               | Some ti \<Rightarrow> if tk_expiresAt ti < now then None else Some ti),
        activeTransfers :=
          (\<lambda>k. case activeTransfers st k of
                 None \<Rightarrow> None
               | Some r \<Rightarrow>
                   (case heap st r of
                      None \<Rightarrow> Some r
                    | Some t \<Rightarrow>
                        if now - startTime t > transferTimeout st * 1000
                           \<and> (status t = completed \<or> status t = failed \<or> status t = cancelled)
                        then None else Some r))\<rparr>"

subsection \<open>Pulling side: one download\<close>

text \<open>
  What the network and the disk hand to \<open>downloadBundle\<close>: whether \<open>mkdir\<close> fails,
  what \<open>fetch\<close> returns, and what the successive \<open>reader.read()\<close> calls return
  (the lengths of the chunks, then either \<open>done\<close> or an error). \<open>content_length\<close> is
  the header after \<open>parseInt\<close>, \<open>None\<close> when the header is absent (the code then takes
  0); a header that is not a number is outside the model.
\<close>

datatype read_end = Done | ReadFault string

record fetch_response =
  ok :: bool
  statusLine :: string
  content_length :: "int option"
  reader :: "(nat list \<times> read_end) option"

datatype fetch_result = FetchError string | Response fetch_response

record download_env =
  mkdir_error :: "string option"
  fetched :: fetch_result

text \<open>
  A run is recorded as a trail: the successive values of the \<open>TransferState\<close> object,
  one entry for every group of assignments the source makes between two suspension
  points, each with a flag telling whether \<open>notifyTransferProgress\<close> was called there.
  The decision to notify inside the loop compares floating-point quotients; it is the
  parameter \<open>due\<close>, given \<open>downloadedBytes\<close>, \<open>totalSize\<close> and \<open>completedChunks.size\<close>.
  An outcome is the trail, the calls made to the callback, and the error thrown.
\<close>

type_synonym trail = "(TransferState \<times> bool) list"

type_synonym outcome = "trail \<times> TransferProgress list \<times> string option"

definition final_state :: "TransferState \<Rightarrow> trail \<Rightarrow> TransferState" where
  "final_state t tr = (if tr = [] then t else fst (last tr))"

definition after :: "trail \<Rightarrow> outcome \<Rightarrow> outcome" where
  "after tr r = (tr @ fst r, snd r)"

text \<open>
  The \<open>while\<close> loop: each chunk read is added to \<open>downloadedBytes\<close>, which is assigned
  to \<open>transferredBytes\<close>; a callback that throws ends the loop.
\<close>

fun read_loop ::
  "(int \<Rightarrow> int \<Rightarrow> nat \<Rightarrow> bool) \<Rightarrow> callback option \<Rightarrow> int \<Rightarrow> int \<Rightarrow> nat list
    \<Rightarrow> TransferProgress list \<Rightarrow> TransferState \<Rightarrow> outcome" where
  "read_loop due cb totalSize downloadedBytes [] calls transfer = ([], calls, None)"
| "read_loop due cb totalSize downloadedBytes (n # reads) calls transfer =
     (let downloadedBytes' = downloadedBytes + int n;
          transfer' = transfer\<lparr>transferredBytes := downloadedBytes'\<rparr>
      in if downloadedBytes' mod (1024 * 1024) = 0
            \<or> due downloadedBytes' totalSize (card (completedChunks transfer'))
         then (case notifyTransferProgress cb calls transfer' of
                 (calls', Some msg) \<Rightarrow> ([(transfer', True)], calls', Some msg)
               | (calls', None) \<Rightarrow>
                   after [(transfer', True)]
                     (read_loop due cb totalSize downloadedBytes' reads calls' transfer'))
         else after [(transfer', False)]
                (read_loop due cb totalSize downloadedBytes' reads calls transfer'))"

text \<open>
  The body of the \<open>try\<close> of \<open>downloadBundle\<close>. It ends with an error when \<open>mkdir\<close>,
  \<open>fetch\<close> or a read throws, when the response is not \<open>ok\<close> or has no body, and when
  the callback throws at one of the three places that notify: after \<open>transferring\<close>
  is assigned, inside the loop, and after \<open>completed\<close> is assigned.
\<close>

definition announced :: "fetch_response \<Rightarrow> int" where
  \<comment> \<open>\<open>parseInt(response.headers.get('content-length') || '0')\<close>\<close>
  "announced response = (case content_length response of None \<Rightarrow> 0 | Some n \<Rightarrow> n)"

definition downloadBundle_try ::
  "(int \<Rightarrow> int \<Rightarrow> nat \<Rightarrow> bool) \<Rightarrow> callback option \<Rightarrow> download_env
    \<Rightarrow> TransferProgress list \<Rightarrow> TransferState \<Rightarrow> outcome" where
  "downloadBundle_try due cb env calls transfer =
     (case mkdir_error env of
        Some msg \<Rightarrow> ([], calls, Some msg)
      | None \<Rightarrow>
          let t1 = transfer\<lparr>status := transferring\<rparr>
          in after [(t1, True)]
               (case notifyTransferProgress cb calls t1 of
                  (calls1, Some msg) \<Rightarrow> ([], calls1, Some msg)
                | (calls1, None) \<Rightarrow>
                    (case fetched env of
                       FetchError msg \<Rightarrow> ([], calls1, Some msg)
                     | Response response \<Rightarrow>
                         if \<not> ok response
                         then ([], calls1, Some (''Download failed: '' @ statusLine response))
                         else
                           let totalSize = announced response;
                               t2 = t1\<lparr>totalBytes := totalSize\<rparr>
                           in after [(t2, False)]
                                (case reader response of
                                   None \<Rightarrow> ([], calls1, Some ''Failed to get response reader'')
                                 | Some (reads, fin) \<Rightarrow>
                                     (case read_loop due cb totalSize 0 reads calls1 t2 of
                                        (loop, calls2, Some msg) \<Rightarrow> (loop, calls2, Some msg)
                                      | (loop, calls2, None) \<Rightarrow>
                                          after loop
                                            (case fin of
                                               ReadFault msg \<Rightarrow> ([], calls2, Some msg)
                                             | Done \<Rightarrow>
                                                 let t3 = final_state t2 loop;
                                                     t4 = t3\<lparr>status := completed\<rparr>
                                                 in after [(t4, True)]
                                                      (case notifyTransferProgress cb calls2 t4 of
                                                         (calls3, thrown) \<Rightarrow>
                                                           ([], calls3, thrown))))))))"

text \<open>
  \<open>downloadBundle\<close>: the \<open>catch\<close> block assigns \<open>failed\<close> and the message, whatever
  the status is at that moment, notifies and throws the error again. When the
  callback throws inside the \<open>catch\<close>, its error is the one that leaves the function.
\<close>

definition downloadBundle ::
  "(int \<Rightarrow> int \<Rightarrow> nat \<Rightarrow> bool) \<Rightarrow> callback option \<Rightarrow> download_env
    \<Rightarrow> TransferProgress list \<Rightarrow> TransferState \<Rightarrow> outcome" where
  "downloadBundle due cb env calls transfer =
     (case downloadBundle_try due cb env calls transfer of
        (tr, calls1, None) \<Rightarrow> (tr, calls1, None)
      | (tr, calls1, Some msg) \<Rightarrow>
          let t = (final_state transfer tr)\<lparr>status := failed, ts_error := Some msg\<rparr>
          in (case notifyTransferProgress cb calls1 t of
                (calls2, Some msg2) \<Rightarrow> (tr @ [(t, True)], calls2, Some msg2)
              | (calls2, None) \<Rightarrow> (tr @ [(t, True)], calls2, Some msg)))"

text \<open>
  \<open>requestBundle\<close>, run without another handler interleaved. \<open>newId\<close> is the generated
  transfer id, \<open>tokenResult\<close> what \<open>requestTransferToken\<close> returned (an error message,
  or token, size and chunks as sent by the peer), \<open>tmp\<close> the temporary path built from
  the id. The result is the returned id or the error thrown, the trail of the
  transfer object created (empty when none was), and the new service state.
\<close>

definition new_transferState ::
  "int \<Rightarrow> string \<Rightarrow> string \<Rightarrow> int \<Rightarrow> int \<Rightarrow> string \<Rightarrow> string \<Rightarrow> TransferState" where
  \<comment> \<open>the object literal \<open>transferState\<close> of \<open>requestBundle\<close>\<close>
  "new_transferState now newId tmp sz chunks peerId bundleId =
     \<lparr>transferId = newId, ts_bundleId = bundleId, ts_peerId = peerId,
      direction = download, status = pending, totalChunks = chunks,
      completedChunks = {}, totalBytes = sz, transferredBytes = 0,
      startTime = now, tempPath = Some tmp, ts_error = None\<rparr>"

definition request_catch ::
  "string \<Rightarrow> string \<Rightarrow> TransferService \<Rightarrow> trail \<times> string \<times> TransferService" where
  \<comment> \<open>the \<open>catch\<close> block of \<open>requestBundle\<close>; the string is the error that leaves it\<close>
  "request_catch msg newId st =
     (case activeTransfers st newId of
        None \<Rightarrow> ([], msg, st)
      | Some r \<Rightarrow>
          (case heap st r of
             None \<Rightarrow> ([], msg, st)
           | Some t \<Rightarrow>
               let t' = t\<lparr>status := failed, ts_error := Some msg\<rparr>
               in (case notifyTransferProgress (onTransferProgress st) (progress_log st) t' of
                     (calls, thrown) \<Rightarrow>
                       ([(t', True)],
                        (case thrown of None \<Rightarrow> msg | Some msg2 \<Rightarrow> msg2),
                        st\<lparr>heap := (heap st)(r \<mapsto> t'), progress_log := calls\<rparr>))))"

definition requestBundle ::
  "(int \<Rightarrow> int \<Rightarrow> nat \<Rightarrow> bool) \<Rightarrow> int \<Rightarrow> string \<Rightarrow> string \<Rightarrow> (string + string \<times> int \<times> int)
    \<Rightarrow> download_env \<Rightarrow> string \<Rightarrow> string \<Rightarrow> TransferService
    \<Rightarrow> (string + string) \<times> trail \<times> TransferService" where
  "requestBundle due now newId tmp tokenResult env peerId bundleId st =
     (case peers st peerId of
        None \<Rightarrow> (Inl ''Peer not available'', [], st)
      | Some peer \<Rightarrow>
          if \<not> online peer then (Inl ''Peer not available'', [], st)
          else
            (case tokenResult of
               Inl msg \<Rightarrow>
                 (case request_catch msg newId st of
                    (tr, thrown, st') \<Rightarrow> (Inl thrown, tr, st'))
             | Inr (token, sz, chunks) \<Rightarrow>
                 let transferState = new_transferState now newId tmp sz chunks peerId bundleId;
                     r = nextRef st;
                     st1 = st\<lparr>activeTransfers := (activeTransfers st)(newId \<mapsto> r),
                              heap := (heap st)(r \<mapsto> transferState),
                              nextRef := Suc r\<rparr>
                 in (case downloadBundle due (onTransferProgress st) env (progress_log st)
                            transferState of
                       (tr, calls, err) \<Rightarrow>
                         let st2 = st1\<lparr>heap := (heap st1)(r \<mapsto> final_state transferState tr),
                                      progress_log := calls\<rparr>
                         in (case err of
                               None \<Rightarrow> (Inr newId, (transferState, False) # tr, st2)
                             | Some msg \<Rightarrow>
                                 (case request_catch msg newId st2 of
                                    (tr', thrown, st3) \<Rightarrow>
                                      (Inl thrown, (transferState, False) # tr @ tr', st3))))))"

text \<open>
  \<open>cancelTransfer\<close> looks the transfer up, assigns \<open>cancelled\<close> to its status without
  reading the current one, deletes the table entry and notifies. The object stays in
  the heap for whoever still holds it. The result pairs the new state with the error
  of a callback that throws.
\<close>

definition cancelTransfer :: "string \<Rightarrow> TransferService \<Rightarrow> TransferService \<times> string option" where
  "cancelTransfer tid st =
     (case activeTransfers st tid of
        None \<Rightarrow> (st, None)
      | Some r \<Rightarrow>
          (case heap st r of
             None \<Rightarrow> (st, None)
           | Some transfer \<Rightarrow>
               let transfer' = transfer\<lparr>status := cancelled\<rparr>
               in (case notifyTransferProgress (onTransferProgress st) (progress_log st)
                          transfer' of
                     (calls, thrown) \<Rightarrow>
                       (st\<lparr>heap := (heap st)(r \<mapsto> transfer'),
                           activeTransfers := (activeTransfers st)(tid := None),
                           progress_log := calls\<rparr>,
                        thrown))))"

subsection \<open>Vocabulary for the lifetime of a transfer\<close>

text \<open>
  The moves of the status within one run. \<open>quiet_move\<close> lists the moves of a run
  whose callback does not throw on a completed transfer; \<open>run_move\<close> adds the one such
  a throw causes, from \<open>completed\<close> to \<open>failed\<close>.
\<close>

definition quiet_move :: "status \<Rightarrow> status \<Rightarrow> bool" where
  "quiet_move s s' =
     (s = s' \<or> (s = pending \<and> s' = transferring) \<or> (s = pending \<and> s' = failed)
      \<or> (s = transferring \<and> s' = completed) \<or> (s = transferring \<and> s' = failed))"

definition run_move :: "status \<Rightarrow> status \<Rightarrow> bool" where
  "run_move s s' = (quiet_move s s' \<or> (s = completed \<and> s' = failed))"

definition accepts_completed :: "callback option \<Rightarrow> bool" where
  \<comment> \<open>the registered callback, if any, returns normally when handed a completed transfer\<close>
  "accepts_completed cb =
     (case cb of
        None \<Rightarrow> True
      | Some f \<Rightarrow> \<forall>calls p. tp_status p = completed \<longrightarrow> f calls p = None)"

definition step_ok :: "bool \<Rightarrow> TransferState \<Rightarrow> TransferState \<Rightarrow> bool" where
  \<comment> \<open>one step of a trail; \<open>q\<close> tells whether the callback accepts completed transfers\<close>
  "step_ok q a b =
     (transferredBytes a \<le> transferredBytes b
      \<and> (if q then quiet_move (status a) (status b) else run_move (status a) (status b)))"

text \<open>
  A response is length-honest when the announced \<open>Content-Length\<close> is not negative,
  the body delivered never exceeds it, and a body that ends normally has exactly
  that length (what the hosting side of this service sends).
\<close>

definition honest_length :: "download_env \<Rightarrow> bool" where
  "honest_length env =
     (case fetched env of
        FetchError msg \<Rightarrow> True
      | Response r \<Rightarrow>
          let n = announced r
          in 0 \<le> n
             \<and> (case reader r of
                  None \<Rightarrow> True
                | Some (reads, fin) \<Rightarrow>
                    int (sum_list reads) \<le> n \<and> (fin = Done \<longrightarrow> int (sum_list reads) = n)))"

section \<open>Vocabulary for the bundle layout\<close>

text \<open>
  The layout \<open>createArchive\<close> hands to the compressor when no length overflows: a
  record per file, after the manifest and the file count. \<open>paired\<close> attaches to each
  path the bytes read for it.
\<close>

definition record_bytes :: "string \<times> string \<Rightarrow> string" where
  "record_bytes r = be_bytes 4 (length (fst r)) @ fst r @ be_bytes 8 (length (snd r)) @ snd r"

definition bounded :: "string \<times> string \<Rightarrow> bool" where
  "bounded r = (length (fst r) < 2 ^ 32 \<and> length (snd r) < 2 ^ 64)"

definition bundle_stream :: "string \<Rightarrow> nat \<Rightarrow> (string \<times> string) list \<Rightarrow> string" where
  "bundle_stream manifestJson fileCount recs =
     be_bytes 4 (length manifestJson) @ manifestJson @ be_bytes 4 fileCount
     @ concat (map record_bytes recs)"

definition paired :: "(string \<rightharpoonup> string) \<Rightarrow> string list \<Rightarrow> (string \<times> string) list" where
  "paired rd files = map (\<lambda>p. (p, the (rd p))) files"

section \<open>Example values\<close>

definition example_manifest :: ProjectManifest where
  "example_manifest =
     \<lparr>m_name = ''demo'', m_version = ''1.0.0'', m_language = node, m_run = ''npm start'',
      m_engines = None, m_ports = Some [3000], m_env = None, m_secrets = None,
      m_dependencies = None\<rparr>"

text \<open>
  A platform for the examples: the compressor stores the bytes as they are and
  stalls once it holds 16384 bytes, the manifest's JSON is replaced by its name, and
  the digest of any input is the same 32 bytes. The example project has one file.
\<close>

definition example_platform :: platform where
  "example_platform =
     \<lparr>p_gzip = (\<lambda>x. x), p_stringify = (\<lambda>m. m_name m),
      p_digest = (\<lambda>x. replicate 32 (CHR ''d'')),
      p_digest_hex = (\<lambda>x. replicate 64 (CHR ''6'')),
      p_stalls = (\<lambda>written. 16384 \<le> length written)\<rparr>"

definition example_tree :: "string \<rightharpoonup> string" where
  "example_tree = [''keep.txt'' \<mapsto> ''hello'']"

definition example_archive :: "(string \<times> BundleResult) settled" where
  "example_archive = createArchive example_platform example_tree [''keep.txt''] example_manifest"

definition example_bundle :: BundleInfo where
  "example_bundle =
     \<lparr>bi_bundleId = ''b1'', bi_manifest = example_manifest,
      bi_bundlePath = ''/tmp/b1.bundle'', bi_size = 5, bi_chunks = 1, bi_checksum = ''c'',
      bi_signature = ''s'', bi_createdAt = 0, bi_expiresAt = 86400000\<rparr>"

definition example_service :: TransferService where
  "example_service =
     \<lparr>transferTimeout = 300, chunkSize = 4194304,
      availableBundles = [''b1'' \<mapsto> example_bundle],
      activeTransfers = Map.empty, heap = Map.empty, nextRef = 0,
      peers = [''peerB'' \<mapsto> \<lparr>pi_id = ''peerB'', pi_name = ''DevShare-b'',
                 pi_address = ''10.0.0.2'', pi_port = 7682, pi_publicKey = ''pk'',
                 pi_lastSeen = 0, online = True\<rparr>],
      transferTokens = Map.empty, onTransferProgress = Some (\<lambda>calls p. None),
      progress_log = []\<rparr>"

definition example_issued :: TransferService where
  "example_issued =
     snd (handleTransferTokenRequest (Cons CHR ''#'') 1000 ''1000:0.5''
            (Some (''b1'', ''peerA'')) example_service)"

definition env_no_length :: download_env where
  "env_no_length =
     \<lparr>mkdir_error = None,
      fetched = Response \<lparr>ok = True, statusLine = ''200 OK'', content_length = None,
                          reader = Some ([5], Done)\<rparr>\<rparr>"

definition env_honest :: download_env where
  "env_honest =
     \<lparr>mkdir_error = None,
      fetched = Response \<lparr>ok = True, statusLine = ''200 OK'', content_length = Some 5,
                          reader = Some ([2, 3], Done)\<rparr>\<rparr>"

definition example_download ::
  "download_env \<Rightarrow> (string + string) \<times> trail \<times> TransferService" where
  "example_download env =
     requestBundle (\<lambda>d t k. False) 1000 ''transfer_1'' ''/tmp/transfer_1.bundle''
       (Inr (''tok'', 5, 1)) env ''peerB'' ''b1'' example_service"

text \<open>A callback that throws when it is handed a completed transfer.\<close>

definition throws_on_completed :: callback where
  "throws_on_completed calls p = (if tp_status p = completed then Some ''boom'' else None)"

definition example_download_throwing :: "(string + string) \<times> trail \<times> TransferService" where
  "example_download_throwing =
     requestBundle (\<lambda>d t k. False) 1000 ''transfer_1'' ''/tmp/transfer_1.bundle''
       (Inr (''tok'', 5, 1)) env_honest ''peerB'' ''b1''
       (example_service\<lparr>onTransferProgress := Some throws_on_completed\<rparr>)"

definition example_crypto :: crypto_env where
  "example_crypto =
     \<lparr>c_native = None, c_sha256 = Cons CHR ''#'',
      c_keyPair = Some \<lparr>kp_publicKey = ''#me'', kp_privateKey = ''me''\<rparr>,
      c_JSON_stringify = (\<lambda>fields. ''msg'')\<rparr>"

definition example_announcement :: PeerAnnouncement where
  "example_announcement =
     \<lparr>pa_id = ''peer1'', pa_name = ''DevShare-host'', pa_port = 7682, pa_publicKey = ''pk'',
      pa_timestamp = 1000, pa_signature = ''#msgpk''\<rparr>"

definition example_discovery :: discovery where
  "example_discovery =
     \<lparr>discoveredPeers = Map.empty, onPeerDiscovered = True, onPeerLost = True,
      onBundleAnnounced = True, notified = []\<rparr>"

section \<open>Properties of the Crypto Service\<close>

lemma verifyBundleSignature_try_returns:
  "\<exists>b. verifyBundleSignature_try native sha256 now bHash sg = Inr b"
  by (auto simp: verifyBundleSignature_try_def)

lemma verifyBundleSignature_never_throws:
  "\<exists>b. verifyBundleSignature native sha256 now bHash sg = Inr b"
  by (cases "verifyBundleSignature_try native sha256 now bHash sg")
    (auto simp: verifyBundleSignature_def)

lemma verifyBundleSignature_expired:
  "now - timestamp sg > maxAge \<Longrightarrow> verifyBundleSignature native sha256 now bHash sg = Inr False"
  by (simp add: verifyBundleSignature_def verifyBundleSignature_try_def)

lemma verifyBundleSignature_hash_mismatch:
  "bHash \<noteq> bundleHash sg \<Longrightarrow> verifyBundleSignature native sha256 now bHash sg = Inr False"
  by (simp add: verifyBundleSignature_def verifyBundleSignature_try_def)

lemma verifyBundleSignature_check_fails:
  "\<not> verify_with native sha256 (bundleHash sg) (signature sg) (publicKey sg)
    \<Longrightarrow> verifyBundleSignature native sha256 now bHash sg = Inr False"
  by (simp add: verifyBundleSignature_def verifyBundleSignature_try_def)

lemma verifyBundleSignature_fresh:
  "now - timestamp sg \<le> maxAge \<Longrightarrow> bHash = bundleHash sg
    \<Longrightarrow> verifyBundleSignature native sha256 now bHash sg
        = Inr (verify_with native sha256 (bundleHash sg) (signature sg) (publicKey sg))"
  by (simp add: verifyBundleSignature_def verifyBundleSignature_try_def)

text \<open>
  With a native addon whose verification accepts what its signing produced for the
  service's key pair, an envelope made by \<open>signBundle\<close> one hour ago verifies.
\<close>

lemma verifyBundleSignature_native_accepts:
  assumes sgn: "native_signData n h (kp_privateKey kp) = Some s"
    and vfy: "native_verifySignature n h s (kp_publicKey kp) = Some True"
    and env: "signBundle (Some n) sha256 (Some kp) (now - 3600000) h = Inr env"
  shows "verifyBundleSignature (Some n) sha256 now h env = Inr True"
proof -
  from env sgn have e: "env = \<lparr>bundleHash = h, signature = s, publicKey = kp_publicKey kp,
      timestamp = now - 3600000, version = ''1.0.0''\<rparr>"
    by (simp add: signBundle_def sign_with_def)
  have "now - timestamp env \<le> maxAge" by (simp add: e maxAge_def)
  moreover have "h = bundleHash env" by (simp add: e)
  ultimately have "verifyBundleSignature (Some n) sha256 now h env
      = Inr (verify_with (Some n) sha256 (bundleHash env) (signature env) (publicKey env))"
    by (rule verifyBundleSignature_fresh)
  with vfy show ?thesis by (simp add: e verify_with_def)
qed

text \<open>
  C9. Under the software fallback the key pair is \<open>(sha256 priv, priv)\<close>. Signing a
  message \<open>m\<close> hashes \<open>m + privateKey\<close>, verifying hashes \<open>m + publicKey\<close>. Whenever the
  two keys differ, and SHA-256 does not collide on these two inputs, the signer's own
  signature is rejected under the signer's own public key.
\<close>

theorem fallback_rejects_own_signature:
  assumes kp: "kp = generateKeyPairFallback sha256 rnd"
    and diff: "kp_publicKey kp \<noteq> kp_privateKey kp"
    and nocoll: "sha256 (m @ kp_privateKey kp) = sha256 (m @ kp_publicKey kp)
                  \<Longrightarrow> m @ kp_privateKey kp = m @ kp_publicKey kp"
  shows "verifySignatureFallback sha256 m
           (signDataFallback sha256 m (kp_privateKey kp)) (kp_publicKey kp) = False"
proof -
  have "sha256 (m @ kp_privateKey kp) \<noteq> sha256 (m @ kp_publicKey kp)"
  proof
    assume "sha256 (m @ kp_privateKey kp) = sha256 (m @ kp_publicKey kp)"
    then have "m @ kp_privateKey kp = m @ kp_publicKey kp" by (rule nocoll)
    with diff show False by simp
  qed
  then show ?thesis
    by (simp add: verifySignatureFallback_def signDataFallback_def)
qed

theorem fallback_rejects_own_signature_witness:
  "verifySignatureFallback (Cons CHR ''#'') ''msg''
     (signDataFallback (Cons CHR ''#'') ''msg''
        (kp_privateKey (generateKeyPairFallback (Cons CHR ''#'') ''k'')))
     (kp_publicKey (generateKeyPairFallback (Cons CHR ''#'') ''k'')) = False"
proof (rule fallback_rejects_own_signature [where rnd = "''k''"])
  show "generateKeyPairFallback (Cons CHR ''#'') ''k'' = generateKeyPairFallback (Cons CHR ''#'') ''k''"
    by (rule refl)
  show "kp_publicKey (generateKeyPairFallback (Cons CHR ''#'') ''k'')
      \<noteq> kp_privateKey (generateKeyPairFallback (Cons CHR ''#'') ''k'')"
    by (simp add: generateKeyPairFallback_def)
  show "''msg'' @ kp_privateKey (generateKeyPairFallback (Cons CHR ''#'') ''k'')
      = ''msg'' @ kp_publicKey (generateKeyPairFallback (Cons CHR ''#'') ''k'')"
    if "CHR ''#'' # (''msg'' @ kp_privateKey (generateKeyPairFallback (Cons CHR ''#'') ''k''))
      = CHR ''#'' # (''msg'' @ kp_publicKey (generateKeyPairFallback (Cons CHR ''#'') ''k''))"
    using that by simp
qed

text \<open>
  C2. \<open>verifyBundleSignature\<close> never throws and answers false on an expired envelope, a
  hash mismatch or a failed check (the lemmas above). Its last part fails when the
  native addon is absent: the envelope \<open>signBundle\<close> made one hour ago, for the same
  hash, under the fallback key pair, is rejected.
\<close>

theorem signBundle_fallback_envelope_rejected:
  assumes diff: "sha256 rnd \<noteq> rnd"
    and nocoll: "sha256 (h @ rnd) = sha256 (h @ sha256 rnd) \<Longrightarrow> h @ rnd = h @ sha256 rnd"
    and env: "signBundle None sha256 (Some (generateKeyPairFallback sha256 rnd))
                (now - 3600000) h = Inr env"
  shows "verifyBundleSignature None sha256 now h env = Inr False"
proof -
  from env have e: "env = \<lparr>bundleHash = h, signature = sha256 (h @ rnd),
      publicKey = sha256 rnd, timestamp = now - 3600000, version = ''1.0.0''\<rparr>"
    by (simp add: signBundle_def sign_with_def signDataFallback_def generateKeyPairFallback_def)
  have "sha256 (h @ rnd) \<noteq> sha256 (h @ sha256 rnd)"
  proof
    assume "sha256 (h @ rnd) = sha256 (h @ sha256 rnd)"
    then have "h @ rnd = h @ sha256 rnd" by (rule nocoll)
    with diff show False by simp
  qed
  then have "\<not> verify_with None sha256 (bundleHash env) (signature env) (publicKey env)"
    by (simp add: e verify_with_def verifySignatureFallback_def)
  then show ?thesis by (rule verifyBundleSignature_check_fails)
qed

theorem signBundle_fallback_envelope_rejected_witness:
  "verifyBundleSignature None (Cons CHR ''#'') 90000000 ''abc''
     \<lparr>bundleHash = ''abc'', signature = ''#abck'', publicKey = ''#k'',
      timestamp = 86400000, version = ''1.0.0''\<rparr> = Inr False"
proof (rule signBundle_fallback_envelope_rejected [where rnd = "''k''"])
  show "CHR ''#'' # ''k'' \<noteq> ''k''" by simp
  show "''abc'' @ ''k'' = ''abc'' @ CHR ''#'' # ''k''"
    if "CHR ''#'' # ''abc'' @ ''k'' = CHR ''#'' # ''abc'' @ CHR ''#'' # ''k''"
    using that by simp
  show "signBundle None (Cons CHR ''#'') (Some (generateKeyPairFallback (Cons CHR ''#'') ''k''))
      (90000000 - 3600000) ''abc''
    = Inr \<lparr>bundleHash = ''abc'', signature = ''#abck'', publicKey = ''#k'',
      timestamp = 86400000, version = ''1.0.0''\<rparr>"
    by (simp add: signBundle_def sign_with_def signDataFallback_def generateKeyPairFallback_def)
qed

section \<open>Properties of the exclusion rules\<close>

lemma shouldExclude_directory:
  assumes "CHR ''*'' \<notin> set pattern"
    and "filePath = pattern \<or> prefix (pattern @ ''/'') filePath"
  shows "shouldExclude filePath (pattern # excludePatterns) = Some True"
  using assms by auto

lemma shouldExclude_under_node_modules:
  "shouldExclude (''node_modules/'' @ rest) DEFAULT_EXCLUDES = Some True"
  by (simp add: DEFAULT_EXCLUDES_def)

lemma shouldExclude_app_log: "shouldExclude ''app.log'' [''*.log''] = Some True"
  by (simp add: replace_star_def metachars_def atom_of_def)

text \<open>
  C5. The directory rule holds (lemmas above) and \<open>*.log\<close> excludes \<open>app.log\<close>. The
  pattern becomes the unanchored expression \<open>.*.log\<close>, which matches any path that
  holds a character followed by \<open>log\<close>: \<open>app.logger\<close> is excluded as well.
\<close>

theorem shouldExclude_app_logger: "shouldExclude ''app.logger'' [''*.log''] = Some True"
  by (simp add: replace_star_def metachars_def atom_of_def)

lemma shouldExclude_dialog: "shouldExclude ''src/dialog.tsx'' DEFAULT_EXCLUDES = Some True"
  by (simp add: DEFAULT_EXCLUDES_def replace_star_def metachars_def atom_of_def)


section \<open>Properties of Peer Discovery\<close>

lemma handlePeerAnnouncement_old:
  "now - pa_timestamp a > 5 * 60 * 1000 \<Longrightarrow> handlePeerAnnouncement c now a addr st = st"
  by (simp add: handlePeerAnnouncement_def Let_def)

text \<open>
  C8. A peer announcement whose timestamp is more than five minutes (300000 ms) behind
  the receiver's clock leaves the whole discovery state as it was: the registry is
  unchanged and nothing is appended to the notifications, whatever the signature.
\<close>

theorem old_peer_announcement_ignored:
  assumes "now - pa_timestamp a > 5 * 60 * 1000"
  shows "handleMessage c now (Some (peer_announcement a)) addr st = st
       \<and> discoveredPeers (handleMessage c now (Some (peer_announcement a)) addr st)
           = discoveredPeers st
       \<and> notified (handleMessage c now (Some (peer_announcement a)) addr st) = notified st"
proof -
  have "handleMessage c now (Some (peer_announcement a)) addr st = st"
    using assms
    by (simp add: handleMessage_def handlePeerAnnouncement_old Let_def split: option.splits)
  then show ?thesis by simp
qed


theorem old_peer_announcement_ignored_witness:
  "(361000::int) - pa_timestamp example_announcement > 5 * 60 * 1000
   \<and> handleMessage example_crypto 361000 (Some (peer_announcement example_announcement))
        ''10.0.0.2'' example_discovery = example_discovery"
  using old_peer_announcement_ignored
    [of 361000 example_announcement example_crypto "''10.0.0.2''" example_discovery]
  by (simp add: example_announcement_def)

lemma fresh_peer_announcement_registered:
  "handleMessage example_crypto 241000 (Some (peer_announcement example_announcement))
     ''10.0.0.2'' example_discovery
   = example_discovery
      \<lparr>discoveredPeers := [''peer1'' \<mapsto>
           \<lparr>dp_id = ''peer1'', dp_name = ''DevShare-host'', dp_address = ''10.0.0.2'',
            dp_port = 7682, dp_publicKey = ''pk'', dp_lastSeen = 241000\<rparr>],
       notified := [PeerDiscovered
           \<lparr>dp_id = ''peer1'', dp_name = ''DevShare-host'', dp_address = ''10.0.0.2'',
            dp_port = 7682, dp_publicKey = ''pk'', dp_lastSeen = 241000\<rparr>]\<rparr>"
  by (simp add: handleMessage_def handlePeerAnnouncement_def example_crypto_def
      example_announcement_def example_discovery_def verifySignature_def verify_with_def
      verifySignatureFallback_def Let_def)

section \<open>Properties of the Transfer Service: tokens\<close>

lemma handleBundleDownloadRequest_state:
  "snd (handleBundleDownloadRequest now token chunkIndex st) = st"
  by (simp add: handleBundleDownloadRequest_def split: option.splits)

lemma unknown_token_rejected:
  "transferTokens st token = None
    \<Longrightarrow> code (fst (handleBundleDownloadRequest now token chunkIndex st)) = 401"
  by (simp add: handleBundleDownloadRequest_def)

lemma expired_token_rejected:
  "transferTokens st token = Some ti \<Longrightarrow> tk_expiresAt ti < now
    \<Longrightarrow> code (fst (handleBundleDownloadRequest now token chunkIndex st)) = 401"
  by (simp add: handleBundleDownloadRequest_def)

lemma token_accepted_until_expiry:
  assumes "transferTokens st token = Some ti" and "\<not> tk_expiresAt ti < now"
    and "availableBundles st (tk_bundleId ti) = Some b"
  shows "code (fst (handleBundleDownloadRequest now token chunkIndex st)) = 200"
  using assms
  by (simp add: handleBundleDownloadRequest_def sendBundleChunk_def sendEntireBundle_def
      Let_def split: option.splits)

lemma example_issued_tokens:
  "transferTokens example_issued ''#b1:peerA:1000:0.5''
     = Some \<lparr>tk_bundleId = ''b1'', tk_peerId = ''peerA'', tk_expiresAt = 301000\<rparr>
   \<and> availableBundles example_issued ''b1'' = Some example_bundle"
  by (simp add: example_issued_def handleTransferTokenRequest_def example_service_def Let_def)

text \<open>
  C4. An expired or unknown token is rejected with 401 (lemmas above). The download
  handler never removes or marks the token it accepts, so the token issued for bundle
  \<open>b1\<close> at time 1000 is accepted at time 2000 and again at time 3000, and the service
  state after both downloads is the state after the token was issued.
\<close>

theorem token_accepted_twice:
  "code (fst (handleBundleDownloadRequest 2000 ''#b1:peerA:1000:0.5'' None example_issued)) = 200
   \<and> code (fst (handleBundleDownloadRequest 3000 ''#b1:peerA:1000:0.5'' None
               (snd (handleBundleDownloadRequest 2000 ''#b1:peerA:1000:0.5'' None
                      example_issued)))) = 200
   \<and> snd (handleBundleDownloadRequest 3000 ''#b1:peerA:1000:0.5'' None
               (snd (handleBundleDownloadRequest 2000 ''#b1:peerA:1000:0.5'' None
                      example_issued))) = example_issued"
proof -
  let ?ti = "\<lparr>tk_bundleId = ''b1'', tk_peerId = ''peerA'', tk_expiresAt = 301000\<rparr>"
  have tok: "transferTokens example_issued ''#b1:peerA:1000:0.5'' = Some ?ti"
    and bun: "availableBundles example_issued (tk_bundleId ?ti) = Some example_bundle"
    using example_issued_tokens by simp_all
  have "code (fst (handleBundleDownloadRequest 2000 ''#b1:peerA:1000:0.5'' None example_issued))
      = 200"
    by (rule token_accepted_until_expiry[OF tok _ bun]) simp
  moreover have "code (fst (handleBundleDownloadRequest 3000 ''#b1:peerA:1000:0.5'' None
      example_issued)) = 200"
    by (rule token_accepted_until_expiry[OF tok _ bun]) simp
  ultimately show ?thesis by (simp add: handleBundleDownloadRequest_state)
qed

section \<open>Properties of the Transfer Service: the lifetime of a download\<close>

subsection \<open>Trails\<close>

lemma final_state_Cons: "final_state t (x # xs) = final_state (fst x) xs"
  by (simp add: final_state_def)

lemma final_state_Nil: "final_state t [] = t"
  by (simp add: final_state_def)

lemma final_state_append: "final_state t (xs @ ys) = final_state (final_state t xs) ys"
  by (induction xs arbitrary: t) (simp_all add: final_state_Cons final_state_Nil)

lemma final_state_snoc: "final_state t (xs @ [x]) = fst x"
  by (simp add: final_state_def)

lemma chain_append:
  "successively R (t # map fst (xs @ ys))
    \<longleftrightarrow> successively R (t # map fst xs) \<and> successively R (final_state t xs # map fst ys)"
  by (induction xs arbitrary: t) (simp_all add: final_state_Cons final_state_Nil)

lemma notify_accepts:
  "accepts_completed cb \<Longrightarrow> status t = completed
    \<Longrightarrow> notifyTransferProgress cb calls t = (calls', thrown) \<Longrightarrow> thrown = None"
  by (auto simp: accepts_completed_def notifyTransferProgress_def progress_of_def
      split: option.splits)

lemma quiet_move_refl: "quiet_move s s"
  by (simp add: quiet_move_def)

lemma step_ok_quiet:
  "transferredBytes a \<le> transferredBytes b \<Longrightarrow> quiet_move (status a) (status b) \<Longrightarrow> step_ok q a b"
  by (simp add: step_ok_def run_move_def)

text \<open>One round of the loop.\<close>

lemma read_loop_Cons:
  assumes "read_loop due cb T d (n # reads) calls t = (tr, c, e)"
  obtains b where "tr = [(t\<lparr>transferredBytes := d + int n\<rparr>, b)]" and "e \<noteq> None"
  | b tr2 calls1 where "tr = (t\<lparr>transferredBytes := d + int n\<rparr>, b) # tr2"
    and "read_loop due cb T (d + int n) reads calls1 (t\<lparr>transferredBytes := d + int n\<rparr>)
          = (tr2, c, e)"
proof -
  let ?t = "t\<lparr>transferredBytes := d + int n\<rparr>"
  let ?cond = "(d + int n) mod (1024 * 1024) = 0 \<or> due (d + int n) T (card (completedChunks ?t))"
  show thesis
  proof (cases ?cond)
    case False
    obtain tr2 c2 e2 where r: "read_loop due cb T (d + int n) reads calls ?t = (tr2, c2, e2)"
      by (cases "read_loop due cb T (d + int n) reads calls ?t")
    with assms False have "tr = (?t, False) # tr2" and "c = c2" and "e = e2"
      by (simp_all add: Let_def after_def)
    with r that(2) show thesis by blast
  next
    case True
    obtain calls1 thrown where nt: "notifyTransferProgress cb calls ?t = (calls1, thrown)"
      by (cases "notifyTransferProgress cb calls ?t")
    show thesis
    proof (cases thrown)
      case (Some msg)
      with assms True nt have "tr = [(?t, True)]" and "e = Some msg"
        by (simp_all add: Let_def)
      then show thesis using that(1) by blast
    next
      case None
      obtain tr2 c2 e2 where r: "read_loop due cb T (d + int n) reads calls1 ?t = (tr2, c2, e2)"
        by (cases "read_loop due cb T (d + int n) reads calls1 ?t")
      with assms True nt None have "tr = (?t, True) # tr2" and "c = c2" and "e = e2"
        by (simp_all add: Let_def after_def)
      with r that(2) show thesis by blast
    qed
  qed
qed

lemma read_loop_props:
  assumes "read_loop due cb T d reads calls t = (tr, c, e)" and "transferredBytes t = d"
  shows "successively (step_ok q) (t # map fst tr)
       \<and> (\<forall>p\<in>set tr. status (fst p) = status t \<and> totalBytes (fst p) = totalBytes t
                      \<and> transferredBytes (fst p) \<le> d + int (sum_list reads))
       \<and> status (final_state t tr) = status t
       \<and> totalBytes (final_state t tr) = totalBytes t
       \<and> d \<le> transferredBytes (final_state t tr)
       \<and> transferredBytes (final_state t tr) \<le> d + int (sum_list reads)
       \<and> (e = None \<longrightarrow> transferredBytes (final_state t tr) = d + int (sum_list reads))"
  using assms
proof (induction reads arbitrary: d calls t tr c e)
  case Nil
  then show ?case by (simp add: final_state_Nil)
next
  case (Cons n reads)
  let ?t = "t\<lparr>transferredBytes := d + int n\<rparr>"
  have st: "step_ok q t ?t"
    using Cons.prems(2) by (intro step_ok_quiet) (simp_all add: quiet_move_refl)
  from Cons.prems(1) show ?case
  proof (cases rule: read_loop_Cons)
    case (1 b)
    then show ?thesis using st Cons.prems(2) by (auto simp: final_state_def)
  next
    case (2 b tr2 calls1)
    have "transferredBytes ?t = d + int n" by simp
    note IH = Cons.IH[OF 2(2) this]
    have "successively (step_ok q) (t # ?t # map fst tr2)" using st IH by simp
    moreover have "final_state t tr = final_state ?t tr2" by (simp add: 2(1) final_state_Cons)
    ultimately show ?thesis using IH Cons.prems(2) by (simp add: 2(1) add.assoc)
  qed
qed


lemma after_simp: "after tr (tr2, c, e) = (tr @ tr2, c, e)"
  by (simp add: after_def)

lemma downloadBundle_try_cases:
  assumes run: "downloadBundle_try due cb env calls t = (tr, c, e)"
  obtains (mkdir) "tr = []" and "e \<noteq> None"
  | (early) "tr = [(t\<lparr>status := transferring\<rparr>, True)]" and "e \<noteq> None"
  | (noreader) r where "fetched env = Response r"
      and "tr = [(t\<lparr>status := transferring\<rparr>, True),
                 (t\<lparr>status := transferring, totalBytes := announced r\<rparr>, False)]"
      and "e \<noteq> None"
  | (stopped) r reads fin c1 loop c2 e2 where "fetched env = Response r"
      and "reader r = Some (reads, fin)"
      and "read_loop due cb (announced r) 0 reads c1
             (t\<lparr>status := transferring, totalBytes := announced r\<rparr>) = (loop, c2, e2)"
      and "tr = [(t\<lparr>status := transferring\<rparr>, True),
                 (t\<lparr>status := transferring, totalBytes := announced r\<rparr>, False)] @ loop"
      and "e \<noteq> None"
  | (finished) r reads c1 loop c2 where "fetched env = Response r"
      and "reader r = Some (reads, Done)"
      and "read_loop due cb (announced r) 0 reads c1
             (t\<lparr>status := transferring, totalBytes := announced r\<rparr>) = (loop, c2, None)"
      and "tr = [(t\<lparr>status := transferring\<rparr>, True),
                 (t\<lparr>status := transferring, totalBytes := announced r\<rparr>, False)] @ loop
                @ [((final_state (t\<lparr>status := transferring, totalBytes := announced r\<rparr>) loop)
                     \<lparr>status := completed\<rparr>, True)]"
      and "accepts_completed cb \<longrightarrow> e = None"
proof (cases "mkdir_error env")
  case (Some msg)
  have "downloadBundle_try due cb env calls t = ([], calls, Some msg)"
    by (simp add: downloadBundle_try_def Some)
  with run have "tr = []" and "e \<noteq> None"  by auto
  then show thesis by (rule mkdir)
next
  case None
  let ?t1 = "t\<lparr>status := transferring\<rparr>"
  obtain c1 th1 where n1: "notifyTransferProgress cb calls ?t1 = (c1, th1)"
    by (cases "notifyTransferProgress cb calls ?t1")
  show thesis
  proof (cases th1)
    case (Some msg)
    have "downloadBundle_try due cb env calls t = ([(?t1, True)], c1, Some msg)"
      by (simp add: downloadBundle_try_def Let_def after_simp None n1 Some)
    with run have "tr = [(?t1, True)]" and "e \<noteq> None"  by auto
    then show thesis by (rule early)
  next
    case th: None
    show thesis
    proof (cases "fetched env")
      case (FetchError msg)
      have "downloadBundle_try due cb env calls t = ([(?t1, True)], c1, Some msg)"
        by (simp add: downloadBundle_try_def Let_def after_simp None n1 th FetchError)
      with run have "tr = [(?t1, True)]" and "e \<noteq> None"  by auto
      then show thesis by (rule early)
    next
      case (Response r)
      let ?t2 = "t\<lparr>status := transferring, totalBytes := announced r\<rparr>"
      show thesis
      proof (cases "ok r")
        case False
        have "downloadBundle_try due cb env calls t
            = ([(?t1, True)], c1, Some (''Download failed: '' @ statusLine r))"
          by (simp add: downloadBundle_try_def Let_def after_simp None n1 th Response False)
        with run have "tr = [(?t1, True)]" and "e \<noteq> None"  by auto
        then show thesis by (rule early)
      next
        case True
        show thesis
        proof (cases "reader r")
          case nr: None
          have "downloadBundle_try due cb env calls t
              = ([(?t1, True), (?t2, False)], c1, Some ''Failed to get response reader'')"
            by (simp add: downloadBundle_try_def Let_def after_simp None n1 th Response True nr)
          with run have "tr = [(?t1, True), (?t2, False)]" and "e \<noteq> None"  by auto
          with Response show thesis by (rule noreader)
        next
          case (Some rd)
          obtain reads fin where rd: "rd = (reads, fin)" by (cases rd)
          obtain loop c2 e2 where lp: "read_loop due cb (announced r) 0 reads c1 ?t2 = (loop, c2, e2)"
            by (cases "read_loop due cb (announced r) 0 reads c1 ?t2")
          have rdr: "reader r = Some (reads, fin)" using Some rd by simp
          show thesis
          proof (cases e2)
            case e2s: (Some msg)
            have "downloadBundle_try due cb env calls t
                = ([(?t1, True), (?t2, False)] @ loop, c2, Some msg)"
              by (simp add: downloadBundle_try_def Let_def after_simp None n1 th Response True
                  rdr lp e2s)
            with run have "tr = [(?t1, True), (?t2, False)] @ loop" and "e \<noteq> None"
               by auto
            with Response rdr lp show thesis by (rule stopped)
          next
            case e2n: None
            show thesis
            proof (cases fin)
              case (ReadFault msg)
              have "downloadBundle_try due cb env calls t
                  = ([(?t1, True), (?t2, False)] @ loop, c2, Some msg)"
                by (simp add: downloadBundle_try_def Let_def after_simp None n1 th Response True
                    rdr lp e2n ReadFault)
              with run have "tr = [(?t1, True), (?t2, False)] @ loop" and "e \<noteq> None"
                 by auto
              with Response rdr lp show thesis by (rule stopped)
            next
              case Done
              let ?t4 = "(final_state ?t2 loop)\<lparr>status := completed\<rparr>"
              obtain c3 th3 where n3: "notifyTransferProgress cb c2 ?t4 = (c3, th3)"
                by (cases "notifyTransferProgress cb c2 ?t4")
              have "downloadBundle_try due cb env calls t
                  = ([(?t1, True), (?t2, False)] @ loop @ [(?t4, True)], c3, th3)"
                by (simp add: downloadBundle_try_def Let_def after_simp None n1 th Response True
                    rdr lp e2n Done n3)
              with run have tr: "tr = [(?t1, True), (?t2, False)] @ loop @ [(?t4, True)]"
                and e: "e = th3" by auto
              have "status ?t4 = completed" by simp
              then have nv: "accepts_completed cb \<longrightarrow> e = None"
                using notify_accepts[OF _ _ n3] e by blast
              have rdr': "reader r = Some (reads, Done)" using rdr Done by simp
              have lp': "read_loop due cb (announced r) 0 reads c1 ?t2 = (loop, c2, None)"
                using lp e2n by simp
              from Response rdr' lp' tr nv show thesis by (rule finished)
            qed
          qed
        qed
      qed
    qed
  qed
qed

subsection \<open>The body of the download\<close>

lemma chain_snoc:
  "successively R (t # map fst tr @ [y])
    \<longleftrightarrow> successively R (t # map fst tr) \<and> R (final_state t tr) y"
  by (induction tr arbitrary: t) (simp_all add: final_state_Cons final_state_Nil)

lemma honest_Response:
  "honest_length env \<Longrightarrow> fetched env = Response r \<Longrightarrow> 0 \<le> announced r"
  by (simp add: honest_length_def Let_def)

lemma honest_reads:
  "honest_length env \<Longrightarrow> fetched env = Response r \<Longrightarrow> reader r = Some (reads, fin)
    \<Longrightarrow> int (sum_list reads) \<le> announced r \<and> (fin = Done \<longrightarrow> int (sum_list reads) = announced r)"
  by (simp add: honest_length_def Let_def)

lemma downloadBundle_try_steps:
  assumes run: "downloadBundle_try due cb env calls t = (tr, c, e)"
    and z: "transferredBytes t = 0" and pd: "status t = pending"
  shows "successively (step_ok q) (t # map fst tr)
       \<and> (status (final_state t tr) = pending \<or> status (final_state t tr) = transferring
          \<or> (status (final_state t tr) = completed \<and> (accepts_completed cb \<longrightarrow> e = None)))"
  using run
proof (cases rule: downloadBundle_try_cases)
  case mkdir
  then show ?thesis using pd by (simp add: final_state_Nil)
next
  case early
  have "step_ok q t (t\<lparr>status := transferring\<rparr>)"
    using pd by (intro step_ok_quiet) (simp_all add: quiet_move_def)
  then show ?thesis using early by (simp add: final_state_def)
next
  case (noreader r)
  have "step_ok q t (t\<lparr>status := transferring\<rparr>)"
    using pd by (intro step_ok_quiet) (simp_all add: quiet_move_def)
  moreover have "step_ok q (t\<lparr>status := transferring\<rparr>)
      (t\<lparr>status := transferring, totalBytes := announced r\<rparr>)"
    by (intro step_ok_quiet) (simp_all add: quiet_move_def)
  ultimately show ?thesis using noreader by (simp add: final_state_def)
next
  case (stopped r reads fin c1 loop c2 e2)
  let ?t1 = "t\<lparr>status := transferring\<rparr>"
  let ?t2 = "t\<lparr>status := transferring, totalBytes := announced r\<rparr>"
  have s1: "step_ok q t ?t1"
    using pd by (intro step_ok_quiet) (simp_all add: quiet_move_def)
  have s2: "step_ok q ?t1 ?t2"
    by (intro step_ok_quiet) (simp_all add: quiet_move_def)
  have t2z: "transferredBytes ?t2 = 0" using z by simp
  note L = read_loop_props[OF stopped(3) t2z, of q]
  have fs: "final_state t tr = final_state ?t2 loop"
    by (simp add: stopped(4) final_state_Cons)
  have st: "status (final_state t tr) = transferring"
    using L by (simp add: fs)
  have "successively (step_ok q) (t # ?t1 # ?t2 # map fst loop)"
    using s1 s2 L by simp
  then have "successively (step_ok q) (t # map fst tr)"
    by (simp add: stopped(4))
  then show ?thesis using st by simp
next
  case (finished r reads c1 loop c2)
  let ?t1 = "t\<lparr>status := transferring\<rparr>"
  let ?t2 = "t\<lparr>status := transferring, totalBytes := announced r\<rparr>"
  let ?t4 = "(final_state ?t2 loop)\<lparr>status := completed\<rparr>"
  have s1: "step_ok q t ?t1"
    using pd by (intro step_ok_quiet) (simp_all add: quiet_move_def)
  have s2: "step_ok q ?t1 ?t2"
    by (intro step_ok_quiet) (simp_all add: quiet_move_def)
  have t2z: "transferredBytes ?t2 = 0" using z by simp
  note L = read_loop_props[OF finished(3) t2z, of q]
  have s4: "step_ok q (final_state ?t2 loop) ?t4"
    using L by (intro step_ok_quiet) (simp_all add: quiet_move_def)
  have "successively (step_ok q) (?t2 # map fst loop @ [?t4])"
    using L s4 by (simp add: chain_snoc)
  then have "successively (step_ok q) (t # ?t1 # ?t2 # map fst loop @ [?t4])"
    using s1 s2 by simp
  moreover have "final_state t tr = ?t4"
    unfolding finished(4) by (simp add: final_state_def)
  ultimately have "successively (step_ok q) (t # map fst tr)"
    and "status (final_state t tr) = completed"
    by (simp_all add: finished(4))
  then show ?thesis using finished(5) by simp
qed

lemma downloadBundle_try_bound:
  assumes run: "downloadBundle_try due cb env calls t = (tr, c, e)"
    and z: "transferredBytes t = 0" and tb: "0 \<le> totalBytes t" and hl: "honest_length env"
    and p: "p \<in> set tr"
  shows "transferredBytes (fst p) \<le> totalBytes (fst p)"
  using run
proof (cases rule: downloadBundle_try_cases)
  case mkdir
  with p show ?thesis by simp
next
  case early
  with p z tb show ?thesis by simp
next
  case (noreader r)
  with p z tb honest_Response[OF hl noreader(1)] show ?thesis by auto
next
  case (stopped r reads fin c1 loop c2 e2)
  let ?t2 = "t\<lparr>status := transferring, totalBytes := announced r\<rparr>"
  have t2z: "transferredBytes ?t2 = 0" using z by simp
  note L = read_loop_props[OF stopped(3) t2z, of True]
  note H = honest_reads[OF hl stopped(1,2)] honest_Response[OF hl stopped(1)]
  from p stopped(4) consider "p = (t\<lparr>status := transferring\<rparr>, True)" | "p = (?t2, False)"
    | "p \<in> set loop" by auto
  then show ?thesis
  proof cases
    case 1
    then show ?thesis using z tb by simp
  next
    case 2
    then show ?thesis using z H by simp
  next
    case 3
    with L have "totalBytes (fst p) = announced r"
      and "transferredBytes (fst p) \<le> 0 + int (sum_list reads)" by simp_all
    with H show ?thesis by simp
  qed
next
  case (finished r reads c1 loop c2)
  let ?t2 = "t\<lparr>status := transferring, totalBytes := announced r\<rparr>"
  let ?t4 = "(final_state ?t2 loop)\<lparr>status := completed\<rparr>"
  have t2z: "transferredBytes ?t2 = 0" using z by simp
  note L = read_loop_props[OF finished(3) t2z, of True]
  note H = honest_reads[OF hl finished(1,2)] honest_Response[OF hl finished(1)]
  from p finished(4) consider "p = (t\<lparr>status := transferring\<rparr>, True)" | "p = (?t2, False)"
    | "p \<in> set loop" | "p = (?t4, True)" by auto
  then show ?thesis
  proof cases
    case 1
    then show ?thesis using z tb by simp
  next
    case 2
    then show ?thesis using z H by simp
  next
    case 3
    with L have "totalBytes (fst p) = announced r"
      and "transferredBytes (fst p) \<le> 0 + int (sum_list reads)" by simp_all
    with H show ?thesis by simp
  next
    case 4
    then show ?thesis using L H by simp
  qed
qed

lemma downloadBundle_try_completed:
  assumes run: "downloadBundle_try due cb env calls t = (tr, c, e)"
    and z: "transferredBytes t = 0" and pd: "status t = pending" and hl: "honest_length env"
    and p: "p \<in> set tr" and cp: "status (fst p) = completed"
  shows "transferredBytes (fst p) = totalBytes (fst p)"
  using run
proof (cases rule: downloadBundle_try_cases)
  case mkdir
  with p show ?thesis by simp
next
  case early
  with p cp show ?thesis by simp
next
  case (noreader r)
  with p cp show ?thesis by auto
next
  case (stopped r reads fin c1 loop c2 e2)
  let ?t2 = "t\<lparr>status := transferring, totalBytes := announced r\<rparr>"
  have t2z: "transferredBytes ?t2 = 0" using z by simp
  note L = read_loop_props[OF stopped(3) t2z, of True]
  from p stopped(4) consider "p = (t\<lparr>status := transferring\<rparr>, True)" | "p = (?t2, False)"
    | "p \<in> set loop" by auto
  then show ?thesis
  proof cases
    case 1
    then show ?thesis using cp by simp
  next
    case 2
    then show ?thesis using cp by simp
  next
    case 3
    with L have "status (fst p) = transferring" by simp
    with cp show ?thesis by simp
  qed
next
  case (finished r reads c1 loop c2)
  let ?t2 = "t\<lparr>status := transferring, totalBytes := announced r\<rparr>"
  let ?t4 = "(final_state ?t2 loop)\<lparr>status := completed\<rparr>"
  have t2z: "transferredBytes ?t2 = 0" using z by simp
  note L = read_loop_props[OF finished(3) t2z, of True]
  note H = honest_reads[OF hl finished(1,2)]
  from p finished(4) consider "p = (t\<lparr>status := transferring\<rparr>, True)" | "p = (?t2, False)"
    | "p \<in> set loop" | "p = (?t4, True)" by auto
  then show ?thesis
  proof cases
    case 1
    then show ?thesis using cp by simp
  next
    case 2
    then show ?thesis using cp by simp
  next
    case 3
    with L have "status (fst p) = transferring" by simp
    with cp show ?thesis by simp
  next
    case 4
    then show ?thesis using L H by simp
  qed
qed

subsection \<open>The download and the request around it\<close>

lemma final_state_mem:
  "tr \<noteq> [] \<Longrightarrow> (final_state t tr, snd (last tr)) \<in> set tr"
  by (simp add: final_state_def)

lemma final_state_cases:
  obtains "tr = []" "final_state t tr = t" | b where "(final_state t tr, b) \<in> set tr"
proof (cases "tr = []")
  case True
  then show ?thesis using that(1) by (simp add: final_state_def)
next
  case False
  from final_state_mem[OF False] show ?thesis using that(2) by blast
qed

lemma downloadBundle_cases:
  assumes run: "downloadBundle due cb env calls t = (tr, c, e)"
  obtains (ok) "downloadBundle_try due cb env calls t = (tr, c, None)" "e = None"
  | (caught) tr0 c1 msg where "downloadBundle_try due cb env calls t = (tr0, c1, Some msg)"
      "tr = tr0 @ [((final_state t tr0)\<lparr>status := failed, ts_error := Some msg\<rparr>, True)]"
      "e \<noteq> None"
proof -
  obtain tr0 c1 e0 where T: "downloadBundle_try due cb env calls t = (tr0, c1, e0)"
    by (cases "downloadBundle_try due cb env calls t") auto
  show ?thesis
  proof (cases e0)
    case None
    have "downloadBundle due cb env calls t = (tr0, c1, None)"
      by (simp add: downloadBundle_def T None)
    with run have "tr = tr0" "c = c1" "e = None" by auto
    with T None ok show ?thesis by simp
  next
    case (Some msg)
    let ?t = "(final_state t tr0)\<lparr>status := failed, ts_error := Some msg\<rparr>"
    obtain c2 th where N: "notifyTransferProgress cb c1 ?t = (c2, th)"
      by (cases "notifyTransferProgress cb c1 ?t") auto
    have "downloadBundle due cb env calls t
        = (tr0 @ [(?t, True)], c2, (case th of None \<Rightarrow> Some msg | Some m \<Rightarrow> Some m))"
      by (simp add: downloadBundle_def T Some N Let_def split: option.splits)
    with run have "tr = tr0 @ [(?t, True)]" "e \<noteq> None"
      by (auto split: option.splits)
    with T Some caught show ?thesis by simp
  qed
qed

lemma downloadBundle_steps:
  assumes run: "downloadBundle due cb env calls t = (tr, c, e)"
    and z: "transferredBytes t = 0" and pd: "status t = pending"
    and qn: "q \<longrightarrow> accepts_completed cb"
  shows "successively (step_ok q) (t # map fst tr)
       \<and> (e \<noteq> None \<longrightarrow> status (final_state t tr) = failed)"
  using run
proof (cases rule: downloadBundle_cases)
  case ok
  from downloadBundle_try_steps[OF ok(1) z pd, of q] ok(2) show ?thesis by simp
next
  case (caught tr0 c1 msg)
  let ?f = "final_state t tr0"
  let ?t = "?f\<lparr>status := failed, ts_error := Some msg\<rparr>"
  note S = downloadBundle_try_steps[OF caught(1) z pd, of q]
  from S have "status ?f = pending \<or> status ?f = transferring
      \<or> (status ?f = completed \<and> \<not> accepts_completed cb)" by auto
  then have mv: "if q then quiet_move (status ?f) failed else run_move (status ?f) failed"
    using qn by (auto simp add: quiet_move_def run_move_def)
  have st: "step_ok q ?f ?t"
    using mv by (simp add: step_ok_def)
  have "successively (step_ok q) (t # map fst tr0 @ [?t])"
    using S st by (simp add: chain_snoc)
  then have "successively (step_ok q) (t # map fst tr)"
    by (simp add: caught(2))
  moreover have "status (final_state t tr) = failed"
    by (simp add: caught(2) final_state_def)
  ultimately show ?thesis by simp
qed

lemma downloadBundle_bound:
  assumes run: "downloadBundle due cb env calls t = (tr, c, e)"
    and z: "transferredBytes t = 0" and tb: "0 \<le> totalBytes t" and hl: "honest_length env"
    and p: "p \<in> set tr"
  shows "transferredBytes (fst p) \<le> totalBytes (fst p)"
  using run
proof (cases rule: downloadBundle_cases)
  case ok
  from downloadBundle_try_bound[OF ok(1) z tb hl p] show ?thesis .
next
  case (caught tr0 c1 msg)
  let ?f = "final_state t tr0"
  have f: "transferredBytes ?f \<le> totalBytes ?f"
  proof (cases rule: final_state_cases[of tr0 t])
    case 1
    then show ?thesis using z tb by simp
  next
    case (2 b)
    from downloadBundle_try_bound[OF caught(1) z tb hl 2] show ?thesis by simp
  qed
  from p caught(2) consider "p \<in> set tr0"
    | "p = (?f\<lparr>status := failed, ts_error := Some msg\<rparr>, True)" by auto
  then show ?thesis
  proof cases
    case 1
    from downloadBundle_try_bound[OF caught(1) z tb hl 1] show ?thesis .
  next
    case 2
    then show ?thesis using f by simp
  qed
qed

lemma downloadBundle_completed:
  assumes run: "downloadBundle due cb env calls t = (tr, c, e)"
    and z: "transferredBytes t = 0" and pd: "status t = pending" and hl: "honest_length env"
    and p: "p \<in> set tr" and cp: "status (fst p) = completed"
  shows "transferredBytes (fst p) = totalBytes (fst p)"
  using run
proof (cases rule: downloadBundle_cases)
  case ok
  from downloadBundle_try_completed[OF ok(1) z pd hl p cp] show ?thesis .
next
  case (caught tr0 c1 msg)
  from p caught(2) consider "p \<in> set tr0"
    | "p = ((final_state t tr0)\<lparr>status := failed, ts_error := Some msg\<rparr>, True)" by auto
  then show ?thesis
  proof cases
    case 1
    from downloadBundle_try_completed[OF caught(1) z pd hl 1 cp] show ?thesis .
  next
    case 2
    then show ?thesis using cp by simp
  qed
qed

lemma request_catch_present:
  assumes a: "activeTransfers st newId = Some r" and h: "heap st r = Some t"
    and rc: "request_catch msg newId st = (tr, thrown, st')"
  shows "tr = [(t\<lparr>status := failed, ts_error := Some msg\<rparr>, True)]"
proof -
  let ?t = "t\<lparr>status := failed, ts_error := Some msg\<rparr>"
  obtain c th where N: "notifyTransferProgress (onTransferProgress st) (progress_log st) ?t = (c, th)"
    by (cases "notifyTransferProgress (onTransferProgress st) (progress_log st) ?t") auto
  have "fst (request_catch msg newId st) = [(?t, True)]"
    by (simp add: request_catch_def a h N Let_def)
  with rc show ?thesis by simp
qed

lemma requestBundle_trail:
  assumes run: "requestBundle due now newId tmp (Inr (token, sz, chunks)) env peerId bundleId st
                  = (res, tr, st')"
  obtains (refused) "tr = []"
  | (ran) tr0 c e tail where
      "downloadBundle due (onTransferProgress st) env (progress_log st)
         (new_transferState now newId tmp sz chunks peerId bundleId) = (tr0, c, e)"
      "tr = (new_transferState now newId tmp sz chunks peerId bundleId, False) # tr0 @ tail"
      "tail = [] \<or> (e \<noteq> None \<and> (\<exists>msg. tail =
          [((final_state (new_transferState now newId tmp sz chunks peerId bundleId) tr0)
              \<lparr>status := failed, ts_error := Some msg\<rparr>, True)]))"
proof (cases "peers st peerId")
  case None
  with run have "tr = []" by (simp add: requestBundle_def)
  then show ?thesis by (rule refused)
next
  case (Some peer)
  show ?thesis
  proof (cases "online peer")
    case False
    with run Some have "tr = []" by (simp add: requestBundle_def)
    then show ?thesis by (rule refused)
  next
    case True
    let ?ts = "new_transferState now newId tmp sz chunks peerId bundleId"
    let ?r = "nextRef st"
    let ?st1 = "st\<lparr>activeTransfers := (activeTransfers st)(newId \<mapsto> ?r),
                     heap := (heap st)(?r \<mapsto> ?ts), nextRef := Suc ?r\<rparr>"
    obtain tr0 c e where D:
      "downloadBundle due (onTransferProgress st) env (progress_log st) ?ts = (tr0, c, e)"
      by (cases "downloadBundle due (onTransferProgress st) env (progress_log st) ?ts") auto
    let ?st2 = "?st1\<lparr>heap := (heap ?st1)(?r \<mapsto> final_state ?ts tr0), progress_log := c\<rparr>"
    show ?thesis
    proof (cases e)
      case None
      have "requestBundle due now newId tmp (Inr (token, sz, chunks)) env peerId bundleId st
          = (Inr newId, (?ts, False) # tr0, ?st2)"
        by (simp add: requestBundle_def Some True D None Let_def)
      with run have "tr = (?ts, False) # tr0 @ []" by simp
      from ran[OF D this] show ?thesis by simp
    next
      case (Some msg)
      obtain tr' thrown st3 where RC: "request_catch msg newId ?st2 = (tr', thrown, st3)"
        by (cases "request_catch msg newId ?st2") auto
      have a: "activeTransfers ?st2 newId = Some ?r" by simp
      have h: "heap ?st2 ?r = Some (final_state ?ts tr0)" by simp
      note T = request_catch_present[OF a h RC]
      have "requestBundle due now newId tmp (Inr (token, sz, chunks)) env peerId bundleId st
          = (Inl thrown, (?ts, False) # tr0 @ tr', st3)"
        using RC by (simp add: requestBundle_def \<open>peers st peerId = Some peer\<close> True D Some Let_def)
      with run have "tr = (?ts, False) # tr0 @ tr'" by simp
      moreover have "tr' = [] \<or> (e \<noteq> None \<and> (\<exists>m. tr' =
          [((final_state ?ts tr0)\<lparr>status := failed, ts_error := Some m\<rparr>, True)]))"
        using T Some by blast
      ultimately show ?thesis using ran[OF D] by blast
    qed
  qed
qed


lemma new_transferState_simps:
  "status (new_transferState now newId tmp sz chunks peerId bundleId) = pending"
  "transferredBytes (new_transferState now newId tmp sz chunks peerId bundleId) = 0"
  "totalBytes (new_transferState now newId tmp sz chunks peerId bundleId) = sz"
  by (simp_all add: new_transferState_def)

lemma requestBundle_steps:
  assumes run: "requestBundle due now newId tmp (Inr (token, sz, chunks)) env peerId bundleId st
                  = (res, tr, st')"
    and qn: "q \<longrightarrow> accepts_completed (onTransferProgress st)"
  shows "successively (step_ok q) (map fst tr)"
  using run
proof (cases rule: requestBundle_trail)
  case refused
  then show ?thesis by simp
next
  case (ran tr0 c e tail)
  let ?ts = "new_transferState now newId tmp sz chunks peerId bundleId"
  note S = downloadBundle_steps[OF ran(1) new_transferState_simps(2) new_transferState_simps(1) qn]
  from ran(3) show ?thesis
  proof
    assume "tail = []"
    then show ?thesis using S by (simp add: ran(2))
  next
    assume "e \<noteq> None \<and> (\<exists>msg. tail =
        [((final_state ?ts tr0)\<lparr>status := failed, ts_error := Some msg\<rparr>, True)])"
    then obtain msg where e: "e \<noteq> None"
      and tl: "tail = [((final_state ?ts tr0)\<lparr>status := failed, ts_error := Some msg\<rparr>, True)]"
      by blast
    from S e have f: "status (final_state ?ts tr0) = failed" by simp
    have "step_ok q (final_state ?ts tr0)
        ((final_state ?ts tr0)\<lparr>status := failed, ts_error := Some msg\<rparr>)"
      using f by (intro step_ok_quiet) (simp_all add: quiet_move_def)
    then have "successively (step_ok q) (?ts # map fst tr0 @
        [(final_state ?ts tr0)\<lparr>status := failed, ts_error := Some msg\<rparr>])"
      using S by (simp add: chain_snoc)
    then show ?thesis by (simp add: ran(2) tl)
  qed
qed

lemma requestBundle_bound:
  assumes run: "requestBundle due now newId tmp (Inr (token, sz, chunks)) env peerId bundleId st
                  = (res, tr, st')"
    and sz: "0 \<le> sz" and hl: "honest_length env" and p: "p \<in> set tr"
  shows "transferredBytes (fst p) \<le> totalBytes (fst p)"
  using run
proof (cases rule: requestBundle_trail)
  case refused
  with p show ?thesis by simp
next
  case (ran tr0 c e tail)
  let ?ts = "new_transferState now newId tmp sz chunks peerId bundleId"
  have tb: "0 \<le> totalBytes ?ts" using sz by (simp add: new_transferState_simps)
  note B = downloadBundle_bound[OF ran(1) new_transferState_simps(2) tb hl]
  have f: "transferredBytes (final_state ?ts tr0) \<le> totalBytes (final_state ?ts tr0)"
  proof (cases rule: final_state_cases[of tr0 ?ts])
    case 1
    then show ?thesis using sz by (simp add: new_transferState_simps)
  next
    case (2 b)
    from B[OF 2] show ?thesis by simp
  qed
  from p ran(2) consider "p = (?ts, False)" | "p \<in> set tr0" | "p \<in> set tail" by auto
  then show ?thesis
  proof cases
    case 1
    then show ?thesis using sz by (simp add: new_transferState_simps)
  next
    case 2
    from B[OF 2] show ?thesis .
  next
    case 3
    with ran(3) obtain msg where
      "p = ((final_state ?ts tr0)\<lparr>status := failed, ts_error := Some msg\<rparr>, True)"
      by auto
    then show ?thesis using f by simp
  qed
qed

lemma requestBundle_completed:
  assumes run: "requestBundle due now newId tmp (Inr (token, sz, chunks)) env peerId bundleId st
                  = (res, tr, st')"
    and hl: "honest_length env" and p: "p \<in> set tr" and cp: "status (fst p) = completed"
  shows "transferredBytes (fst p) = totalBytes (fst p)"
  using run
proof (cases rule: requestBundle_trail)
  case refused
  with p show ?thesis by simp
next
  case (ran tr0 c e tail)
  let ?ts = "new_transferState now newId tmp sz chunks peerId bundleId"
  from p ran(2) consider "p = (?ts, False)" | "p \<in> set tr0" | "p \<in> set tail" by auto
  then show ?thesis
  proof cases
    case 1
    then show ?thesis using cp by (simp add: new_transferState_simps)
  next
    case 2
    from downloadBundle_completed[OF ran(1) new_transferState_simps(2)
        new_transferState_simps(1) hl 2 cp] show ?thesis .
  next
    case 3
    with ran(3) obtain msg where
      "p = ((final_state ?ts tr0)\<lparr>status := failed, ts_error := Some msg\<rparr>, True)"
      by auto
    then show ?thesis using cp by simp
  qed
qed

lemma requestBundle_starts:
  assumes run: "requestBundle due now newId tmp (Inr (token, sz, chunks)) env peerId bundleId st
                  = (res, tr, st')"
    and ne: "tr \<noteq> []"
  shows "status (fst (hd tr)) = pending \<and> transferredBytes (fst (hd tr)) = 0"
  using run
proof (cases rule: requestBundle_trail)
  case refused
  with ne show ?thesis by simp
next
  case (ran tr0 c e tail)
  then show ?thesis by (simp add: new_transferState_simps)
qed

lemma successively_step_sorted:
  "successively (step_ok q) ts \<Longrightarrow> sorted (map transferredBytes ts)"
proof (induction ts rule: induct_list012)
  case (3 x y zs)
  then have a: "transferredBytes x \<le> transferredBytes y" and s: "sorted (map transferredBytes (y # zs))"
    by (simp_all add: step_ok_def)
  from s have "\<forall>z\<in>set zs. transferredBytes y \<le> transferredBytes z" by simp
  with a have "\<forall>z\<in>set (y # zs). transferredBytes x \<le> transferredBytes z" by auto
  with s show ?case by simp
qed simp_all

lemma successively_step_moves:
  "successively (step_ok q) ts \<Longrightarrow>
     successively (\<lambda>a b. if q then quiet_move (status a) (status b)
                            else run_move (status a) (status b)) ts"
  by (erule successively_mono) (simp add: step_ok_def)

subsection \<open>Cancellation and the example runs\<close>

lemma cancelTransfer_object:
  assumes "activeTransfers s tid = Some r" and "heap s r = Some t"
  shows "heap (fst (cancelTransfer tid s)) r = Some (t\<lparr>status := cancelled\<rparr>)
       \<and> activeTransfers (fst (cancelTransfer tid s)) tid = None"
  using assms by (simp add: cancelTransfer_def Let_def split: prod.splits)

lemmas example_run_defs =
  requestBundle_def example_service_def new_transferState_def downloadBundle_def
  downloadBundle_try_def after_def final_state_def notifyTransferProgress_def
  progress_of_def announced_def request_catch_def Let_def

lemma example_download_no_length:
  "map (\<lambda>p. (status (fst p), transferredBytes (fst p), totalBytes (fst p)))
       (fst (snd (example_download env_no_length)))
   = [(pending, 0, 5), (transferring, 0, 5), (transferring, 0, 0), (transferring, 5, 0),
      (completed, 5, 0)]"
  by (simp add: example_download_def env_no_length_def example_run_defs)

lemma example_download_honest:
  "map (\<lambda>p. (status (fst p), transferredBytes (fst p), totalBytes (fst p)))
       (fst (snd (example_download env_honest)))
   = [(pending, 0, 5), (transferring, 0, 5), (transferring, 0, 5), (transferring, 2, 5),
      (transferring, 5, 5), (completed, 5, 5)]"
  by (simp add: example_download_def env_honest_def example_run_defs)

lemma example_download_honest_state:
  "activeTransfers (snd (snd (example_download env_honest))) ''transfer_1'' = Some 0
   \<and> map_option status (heap (snd (snd (example_download env_honest))) 0) = Some completed"
  by (simp add: example_download_def env_honest_def example_run_defs)

lemma example_download_honest_bytes:
  "map_option transferredBytes (heap (snd (snd (example_download env_honest))) 0) = Some 5"
  by (simp add: example_download_def env_honest_def example_run_defs)

text \<open>
  A callback that throws when it is handed the completed transfer sends the run of
  the example into the \<open>catch\<close> blocks: the status goes from \<open>completed\<close> to \<open>failed\<close>
  and \<open>requestBundle\<close> rejects with the callback's error.
\<close>

lemma example_download_throwing_trail:
  "fst example_download_throwing = Inl ''boom''
   \<and> map (\<lambda>p. status (fst p)) (fst (snd example_download_throwing))
     = [pending, transferring, transferring, transferring, transferring, completed, failed,
        failed]"
  by (simp add: example_download_throwing_def env_honest_def throws_on_completed_def
      example_run_defs)

subsection \<open>Bytes transferred and status over the lifetime\<close>

text \<open>
  C6, as the code has it. Over the whole run of \<open>requestBundle\<close> that creates a
  transfer, \<open>transferredBytes\<close> starts at 0 and never decreases. The code never
  compares it with \<open>totalBytes\<close>: the bound \<open>transferredBytes \<le> totalBytes\<close>, and
  equality at the moment the status is \<open>completed\<close>, hold when the peer's token
  response gives a size that is not negative and the download response is
  length-honest.
\<close>

theorem transferredBytes_lifetime:
  assumes run: "requestBundle due now newId tmp (Inr (token, sz, chunks)) env peerId bundleId st
      = (res, tr, st')"
  shows "sorted (map (\<lambda>p. transferredBytes (fst p)) tr)
       \<and> (0 \<le> sz \<and> honest_length env
            \<longrightarrow> (\<forall>p\<in>set tr. transferredBytes (fst p) \<le> totalBytes (fst p)))
       \<and> (honest_length env
            \<longrightarrow> (\<forall>p\<in>set tr. status (fst p) = completed
                    \<longrightarrow> transferredBytes (fst p) = totalBytes (fst p)))
       \<and> (tr \<noteq> [] \<longrightarrow> transferredBytes (fst (hd tr)) = 0)"
proof (intro conjI impI ballI)
  have "successively (step_ok False) (map fst tr)"
    using run by (rule requestBundle_steps) simp
  then have "sorted (map transferredBytes (map fst tr))"
    by (rule successively_step_sorted)
  then show "sorted (map (\<lambda>p. transferredBytes (fst p)) tr)"
    by (simp add: comp_def)
next
  fix p assume "0 \<le> sz \<and> honest_length env" and "p \<in> set tr"
  then show "transferredBytes (fst p) \<le> totalBytes (fst p)"
    using requestBundle_bound[OF run] by blast
next
  fix p assume "honest_length env" and "p \<in> set tr" and "status (fst p) = completed"
  then show "transferredBytes (fst p) = totalBytes (fst p)"
    using requestBundle_completed[OF run] by blast
next
  assume "tr \<noteq> []"
  then show "transferredBytes (fst (hd tr)) = 0"
    using requestBundle_starts[OF run] by simp
qed

theorem transferredBytes_lifetime_witness:
  "honest_length env_honest
   \<and> sorted (map (\<lambda>p. transferredBytes (fst p)) (fst (snd (example_download env_honest))))
   \<and> status (fst (last (fst (snd (example_download env_honest))))) = completed
   \<and> transferredBytes (fst (last (fst (snd (example_download env_honest)))))
       = totalBytes (fst (last (fst (snd (example_download env_honest)))))
   \<and> transferredBytes (fst (hd (fst (snd (example_download env_honest))))) = 0"
proof -
  let ?R = "example_download env_honest"
  let ?tr = "fst (snd ?R)"
  have run: "requestBundle (\<lambda>d t k. False) 1000 ''transfer_1'' ''/tmp/transfer_1.bundle''
       (Inr (''tok'', 5, 1)) env_honest ''peerB'' ''b1'' example_service
     = (fst ?R, ?tr, snd (snd ?R))"
    by (simp add: example_download_def)
  note T = transferredBytes_lifetime[OF run]
  have hl: "honest_length env_honest"
    by (simp add: honest_length_def env_honest_def announced_def)
  have ne: "?tr \<noteq> []" using example_download_honest by auto
  then have mem: "last ?tr \<in> set ?tr" by simp
  have "(\<lambda>p. (status (fst p), transferredBytes (fst p), totalBytes (fst p))) (last ?tr)
      = last (map (\<lambda>p. (status (fst p), transferredBytes (fst p), totalBytes (fst p))) ?tr)"
    using ne by (simp add: last_map)
  then have c: "status (fst (last ?tr)) = completed"
    by (simp add: example_download_honest)
  from T hl mem c have "transferredBytes (fst (last ?tr)) = totalBytes (fst (last ?tr))"
    by blast
  with T hl c ne show ?thesis by blast
qed

text \<open>
  The claim as stated fails: a peer that answers without a \<open>Content-Length\<close> header
  and sends five bytes leaves the transfer completed with \<open>transferredBytes = 5\<close> and
  \<open>totalBytes = 0\<close>.
\<close>

theorem transferredBytes_exceeds_totalBytes:
  "status (fst (last (fst (snd (example_download env_no_length))))) = completed
   \<and> transferredBytes (fst (last (fst (snd (example_download env_no_length))))) = 5
   \<and> totalBytes (fst (last (fst (snd (example_download env_no_length))))) = 0
   \<and> \<not> transferredBytes (fst (last (fst (snd (example_download env_no_length)))))
         \<le> totalBytes (fst (last (fst (snd (example_download env_no_length)))))"
proof -
  let ?tr = "fst (snd (example_download env_no_length))"
  have ne: "?tr \<noteq> []" using example_download_no_length by auto
  then have "(\<lambda>p. (status (fst p), transferredBytes (fst p), totalBytes (fst p))) (last ?tr)
      = last (map (\<lambda>p. (status (fst p), transferredBytes (fst p), totalBytes (fst p))) ?tr)"
    by (simp add: last_map)
  then have "(status (fst (last ?tr)), transferredBytes (fst (last ?tr)),
      totalBytes (fst (last ?tr))) = (completed, 5, 0)"
    by (simp add: example_download_no_length)
  then show ?thesis by simp
qed

text \<open>
  C7, as the code has it. Within one run of \<open>requestBundle\<close> the status of the
  transfer it creates starts at \<open>pending\<close> and every change is one of
  \<open>pending \<rightarrow> transferring\<close>, \<open>pending \<rightarrow> failed\<close>, \<open>transferring \<rightarrow> completed\<close>,
  \<open>transferring \<rightarrow> failed\<close> and \<open>completed \<rightarrow> failed\<close>; the last one does not occur
  when the progress callback returns normally for a completed transfer. \<open>failed\<close> is
  never left. \<open>cancelTransfer\<close> does not read the status: it assigns \<open>cancelled\<close> to
  any transfer still in the table and removes its entry.
\<close>

theorem status_moves_forward:
  assumes run: "requestBundle due now newId tmp (Inr (token, sz, chunks)) env peerId bundleId st
      = (res, tr, st')"
    and tbl: "activeTransfers s tid = Some r" and obj: "heap s r = Some t"
  shows "(tr \<noteq> [] \<longrightarrow> status (fst (hd tr)) = pending)
       \<and> successively (\<lambda>a b. run_move (status (fst a)) (status (fst b))) tr
       \<and> (accepts_completed (onTransferProgress st)
            \<longrightarrow> successively (\<lambda>a b. quiet_move (status (fst a)) (status (fst b))) tr)
       \<and> heap (fst (cancelTransfer tid s)) r = Some (t\<lparr>status := cancelled\<rparr>)
       \<and> activeTransfers (fst (cancelTransfer tid s)) tid = None"
proof (intro conjI impI)
  assume "tr \<noteq> []"
  then show "status (fst (hd tr)) = pending"
    using requestBundle_starts[OF run] by simp
next
  have "successively (step_ok False) (map fst tr)"
    using run by (rule requestBundle_steps) simp
  then have "successively (\<lambda>a b. run_move (status a) (status b)) (map fst tr)"
    by (rule successively_mono) (simp add: step_ok_def)
  then show "successively (\<lambda>a b. run_move (status (fst a)) (status (fst b))) tr"
    by (simp add: successively_map)
next
  assume "accepts_completed (onTransferProgress st)"
  then have "successively (step_ok True) (map fst tr)"
    using requestBundle_steps[OF run, of True] by simp
  then have "successively (\<lambda>a b. quiet_move (status a) (status b)) (map fst tr)"
    by (rule successively_mono) (simp add: step_ok_def)
  then show "successively (\<lambda>a b. quiet_move (status (fst a)) (status (fst b))) tr"
    by (simp add: successively_map)
next
  show "heap (fst (cancelTransfer tid s)) r = Some (t\<lparr>status := cancelled\<rparr>)"
    using cancelTransfer_object[OF tbl obj] by simp
next
  show "activeTransfers (fst (cancelTransfer tid s)) tid = None"
    using cancelTransfer_object[OF tbl obj] by simp
qed

theorem status_moves_forward_witness:
  "accepts_completed (onTransferProgress example_service)
   \<and> status (fst (hd (fst (snd (example_download env_honest))))) = pending
   \<and> successively (\<lambda>a b. quiet_move (status (fst a)) (status (fst b)))
       (fst (snd (example_download env_honest)))
   \<and> map_option transferredBytes
       (heap (fst (cancelTransfer ''transfer_1'' (snd (snd (example_download env_honest))))) 0)
       = Some 5
   \<and> activeTransfers
       (fst (cancelTransfer ''transfer_1'' (snd (snd (example_download env_honest)))))
       ''transfer_1'' = None"
proof -
  let ?R = "example_download env_honest"
  let ?S = "snd (snd ?R)"
  have run: "requestBundle (\<lambda>d t k. False) 1000 ''transfer_1'' ''/tmp/transfer_1.bundle''
       (Inr (''tok'', 5, 1)) env_honest ''peerB'' ''b1'' example_service
     = (fst ?R, fst (snd ?R), ?S)"
    by (simp add: example_download_def)
  have ac: "accepts_completed (onTransferProgress example_service)"
    by (simp add: accepts_completed_def example_service_def)
  have ne: "fst (snd ?R) \<noteq> []" using example_download_honest by auto
  have tbl: "activeTransfers ?S ''transfer_1'' = Some 0"
    using example_download_honest_state by simp
  obtain t where obj: "heap ?S 0 = Some t" and tb: "transferredBytes t = 5"
    using example_download_honest_bytes by auto
  from status_moves_forward[OF run tbl obj] tb ac ne show ?thesis by simp
qed

text \<open>
  The claim as stated fails: the completed transfer of the example is still in the
  table, and \<open>cancelTransfer\<close> turns its status from \<open>completed\<close> into \<open>cancelled\<close>.
\<close>

theorem cancelTransfer_overwrites_completed:
  "map_option status (heap (snd (snd (example_download env_honest))) 0) = Some completed
   \<and> map_option status
       (heap (fst (cancelTransfer ''transfer_1'' (snd (snd (example_download env_honest))))) 0)
       = Some cancelled"
proof -
  let ?S = "snd (snd (example_download env_honest))"
  have tbl: "activeTransfers ?S ''transfer_1'' = Some 0"
    and st: "map_option status (heap ?S 0) = Some completed"
    using example_download_honest_state by simp_all
  then obtain t where obj: "heap ?S 0 = Some t" by auto
  from cancelTransfer_object[OF tbl obj] st show ?thesis by simp
qed

section \<open>Properties of the Bundle Codec\<close>

lemma length_be_bytes: "length (be_bytes k n) = k"
  by (induction k arbitrary: n) simp_all

lemma then_r_Some:
  "then_r m f = Some (Inr y) \<longleftrightarrow> (\<exists>x. m = Some (Inr x) \<and> f x = Some (Inr y))"
  by (auto simp: then_r_def split: option.splits sum.splits)

lemma writeUInt32BE_Some:
  "writeUInt32BE n = Some (Inr b) \<longleftrightarrow> n < 2 ^ 32 \<and> b = be_bytes 4 n"
  by (auto simp: writeUInt32BE_def)

lemma writeBigUInt64BE_Some:
  "writeBigUInt64BE n = Some (Inr b) \<longleftrightarrow> n < 2 ^ 64 \<and> b = be_bytes 8 n"
  by (auto simp: writeBigUInt64BE_def)

lemma writeToStream_Some:
  "writeToStream env w d = Some (Inr w') \<longleftrightarrow> \<not> p_stalls env (w @ d) \<and> w' = w @ d"
  by (auto simp: writeToStream_def)

lemma record_bytes_pair:
  "record_bytes (p, c) = be_bytes 4 (length p) @ p @ be_bytes 8 (length c) @ c"
  by (simp add: record_bytes_def)

lemma paired_Cons: "paired rd (p # ps) = (p, the (rd p)) # paired rd ps"
  by (simp add: paired_def)

lemma write_files_bytes:
  "write_files env rd files w = Some (Inr bytes)
    \<Longrightarrow> bytes = w @ concat (map record_bytes (paired rd files))"
proof (induction files arbitrary: w)
  case Nil
  then show ?case by (simp add: paired_def)
next
  case (Cons p ps)
  from Cons.prems obtain c where c: "rd p = Some c"
    by (cases "rd p") simp_all
  let ?w4 = "w @ be_bytes 4 (length p) @ p @ be_bytes 8 (length c) @ c"
  from Cons.prems c have rest: "write_files env rd ps ?w4 = Some (Inr bytes)"
    by (auto simp: then_r_Some writeUInt32BE_Some writeBigUInt64BE_Some writeToStream_Some)
  from Cons.IH[OF rest] show ?case
    by (simp add: paired_Cons record_bytes_pair c)
qed

lemma createArchive_Some:
  assumes "createArchive env rd files manifest = Some (Inr (bundleFile, res))"
  shows "bundleFile = p_digest env (p_gzip env
            (bundle_stream (p_stringify env manifest) (length files) (paired rd files)))
       \<and> res = \<lparr>br_size = length bundleFile,
                 br_checksum = p_digest_hex env (p_gzip env
                   (bundle_stream (p_stringify env manifest) (length files) (paired rd files))),
                 br_fileCount = length files\<rparr>"
proof -
  let ?m = "p_stringify env manifest"
  let ?w3 = "be_bytes 4 (length ?m) @ ?m @ be_bytes 4 (length files)"
  from assms obtain w4 where w: "write_files env rd files ?w3 = Some (Inr w4)"
    and o: "bundleFile = p_digest env (p_gzip env w4)"
    and r: "res = \<lparr>br_size = length bundleFile, br_checksum = p_digest_hex env (p_gzip env w4),
                    br_fileCount = length files\<rparr>"
    by (auto simp: createArchive_def Let_def then_r_Some writeUInt32BE_Some writeToStream_Some)
  from write_files_bytes[OF w] have "w4 = bundle_stream ?m (length files) (paired rd files)"
    by (simp add: bundle_stream_def)
  with o r show ?thesis by simp
qed

text \<open>
  \<open>createArchive\<close> resolves when no length overflows, every file can be read and the
  compressor acknowledges every write.
\<close>

lemma write_files_resolves:
  assumes "\<forall>p\<in>set files. rd p \<noteq> None \<and> bounded (p, the (rd p))"
    and "\<forall>w. \<not> p_stalls env w"
  shows "write_files env rd files w = Some (Inr (w @ concat (map record_bytes (paired rd files))))"
  using assms
proof (induction files arbitrary: w)
  case Nil
  then show ?case by (simp add: paired_def)
next
  case (Cons p ps)
  then obtain c where c: "rd p = Some c" and b: "length p < 2 ^ 32" "length c < 2 ^ 64"
    by (auto simp: bounded_def)
  have IH: "write_files env rd ps w' = Some (Inr (w' @ concat (map record_bytes (paired rd ps))))"
    for w' using Cons.IH[of w'] Cons.prems by simp
  show ?case
    using Cons.prems(2) b
    by (simp add: c then_r_def writeUInt32BE_def writeBigUInt64BE_def writeToStream_def IH
        paired_Cons record_bytes_pair)
qed

lemma createArchive_resolves:
  assumes "length (p_stringify env manifest) < 2 ^ 32" and "length files < 2 ^ 32"
    and "\<forall>p\<in>set files. rd p \<noteq> None \<and> bounded (p, the (rd p))"
    and "\<forall>w. \<not> p_stalls env w"
  shows "\<exists>res. createArchive env rd files manifest
           = Some (Inr (p_digest env (p_gzip env
               (bundle_stream (p_stringify env manifest) (length files) (paired rd files))), res))"
  using assms(1,2,4)
  by (simp add: createArchive_def Let_def then_r_def writeUInt32BE_def writeToStream_def
      write_files_resolves[OF assms(3,4)] bundle_stream_def)

text \<open>A write the compressor does not acknowledge leaves \<open>createArchive\<close> pending for ever.\<close>

lemma createArchive_pending:
  assumes "length (p_stringify env manifest) < 2 ^ 32"
    and "p_stalls env (be_bytes 4 (length (p_stringify env manifest)) @ p_stringify env manifest)"
  shows "createArchive env rd files manifest = None"
  using assms
  by (simp add: createArchive_def Let_def then_r_def writeUInt32BE_def writeToStream_def)

lemma example_archive_value:
  "example_archive
   = Some (Inr (replicate 32 (CHR ''d''),
        \<lparr>br_size = 32, br_checksum = replicate 64 (CHR ''6''), br_fileCount = 1\<rparr>))"
  by (simp add: example_archive_def createArchive_def Let_def then_r_def writeUInt32BE_def
      writeBigUInt64BE_def writeToStream_def example_platform_def example_tree_def
      example_manifest_def length_be_bytes)

text \<open>
  C1. The bundle file that \<open>createArchive\<close> leaves on disk is not the compressed
  layout but the digest chunk of the \<open>Hash\<close> object the pipeline sends it through;
  the size reported is the length of that chunk. Nothing of the project's files or
  of the manifest can be read back from it.
\<close>

theorem bundle_file_is_digest:
  assumes "createArchive env rd files manifest = Some (Inr (bundleFile, res))"
  shows "bundleFile = p_digest env (p_gzip env
            (bundle_stream (p_stringify env manifest) (length files) (paired rd files)))
       \<and> br_size res = length bundleFile
       \<and> br_checksum res = p_digest_hex env (p_gzip env
            (bundle_stream (p_stringify env manifest) (length files) (paired rd files)))
       \<and> br_fileCount res = length files"
  using createArchive_Some[OF assms] by simp

theorem bundle_file_is_digest_witness:
  "example_archive
     = Some (Inr (replicate 32 (CHR ''d''),
          \<lparr>br_size = 32, br_checksum = replicate 64 (CHR ''6''), br_fileCount = 1\<rparr>))
   \<and> replicate 32 (CHR ''d'')
     = p_digest example_platform (p_gzip example_platform
         (bundle_stream (p_stringify example_platform example_manifest) 1
            (paired example_tree [''keep.txt''])))"
proof -
  have v: "createArchive example_platform example_tree [''keep.txt''] example_manifest
      = Some (Inr (replicate 32 (CHR ''d''),
          \<lparr>br_size = 32, br_checksum = replicate 64 (CHR ''6''), br_fileCount = 1\<rparr>))"
    using example_archive_value by (simp add: example_archive_def)
  from bundle_file_is_digest[OF v] example_archive_value show ?thesis by simp
qed

end
